theory Spec2Isabelle
  imports Complex_Main
begin

section \<open>Values, errors and the host interpreter\<close>

text \<open>
  The embedding follows \<^verbatim>\<open>mocksh.py\<close> on the interpreter branch
  \<^verbatim>\<open>sys.version_info >= (3, 6)\<close> (so \<^verbatim>\<open>PY3\<close> holds and
  \<^verbatim>\<open>_STR_TYPES = (str, bytes, os.PathLike)\<close>).

  A Python value is represented by what the module observes of it: whether it is an
  instance of one of the string types, whether it is one of the singletons
  \<^verbatim>\<open>True\<close> and \<^verbatim>\<open>False\<close>, whether it is an integer, and, for any other
  object, the name of its type, whether that type defines \<^verbatim>\<open>__str__\<close> other than
  \<^verbatim>\<open>object.__str__\<close>, and the text \<^verbatim>\<open>str(obj)\<close> returns.
\<close>

datatype pyval =
    PyStr string
  | PyBytes string
  | PyPath string
  | PyBool bool
  | PyInt int
  | PyObj (type_name: string) (defines_str: bool) (str_result: string)

datatype error =
    TypeError string
  | ValueError string
  | KeyError
  | IOError "nat option"
  | TimeoutExpired
  | CommandError_raised int nat
  | OtherError string

text \<open>
  What the interpreter and the platform decide: whether \<^verbatim>\<open>bool\<close> and \<^verbatim>\<open>int\<close>
  carry a \<^verbatim>\<open>__str__\<close> of their own (they do up to Python 3.7 and inherit
  \<^verbatim>\<open>object.__str__\<close> from 3.8 on), what \<^verbatim>\<open>str\<close> returns for a bytes or
  path-like object, the members of \<^verbatim>\<open>signal.Signals\<close> as (name, number) pairs in
  iteration order, and the two \<^verbatim>\<open>errno\<close> constants the module reads.
\<close>

record host =
  bool_has_str :: bool
  int_has_str :: bool
  builtin_str :: "pyval \<Rightarrow> string"
  Signals :: "(string \<times> int) list"
  EINVAL :: nat
  EPIPE :: nat

type_synonym 'a gen = "'a list \<times> error option"

subsection \<open>Decimal rendering of integers\<close>

fun digits :: "nat \<Rightarrow> string" where
  "digits n = (if n < 10 then [''0123456789'' ! n]
               else digits (n div 10) @ [''0123456789'' ! (n mod 10)])"

declare digits.simps [simp del]

definition repr_int :: "int \<Rightarrow> string" where
  "repr_int i = (if i < 0 then ''-'' @ digits (nat (- i)) else digits (nat i))"

section \<open>Dictionaries\<close>

text \<open>
  A \<^verbatim>\<open>dict\<close> is an association list in iteration order with distinct keys.
  Assignment replaces the value in place or appends a new key; \<^verbatim>\<open>setdefault\<close>
  appends only when the key is absent.
\<close>

fun dict_set :: "('k \<times> 'v) list \<Rightarrow> 'k \<Rightarrow> 'v \<Rightarrow> ('k \<times> 'v) list" where
  "dict_set [] k v = [(k, v)]"
| "dict_set ((k', v') # d) k v = (if k' = k then (k, v) # d else (k', v') # dict_set d k v)"

definition dict_contains :: "('k \<times> 'v) list \<Rightarrow> 'k \<Rightarrow> bool" where
  "dict_contains d k = (map_of d k \<noteq> None)"

definition dict_setdefault :: "('k \<times> 'v) list \<Rightarrow> 'k \<Rightarrow> 'v \<Rightarrow> ('k \<times> 'v) list" where
  "dict_setdefault d k v = (if dict_contains d k then d else dict_set d k v)"

section \<open>The argument marshaller\<close>

definition isinstance_STR_TYPES :: "pyval \<Rightarrow> bool" where
  "isinstance_STR_TYPES obj =
     (case obj of PyStr s \<Rightarrow> True | PyBytes b \<Rightarrow> True | PyPath p \<Rightarrow> True | _ \<Rightarrow> False)"

text \<open>\<^verbatim>\<open>type(obj).__name__\<close>\<close>

definition type_name_of :: "pyval \<Rightarrow> string" where
  "type_name_of obj =
     (case obj of PyStr s \<Rightarrow> ''str'' | PyBytes b \<Rightarrow> ''bytes'' | PyPath p \<Rightarrow> ''PathLike''
      | PyBool b \<Rightarrow> ''bool'' | PyInt i \<Rightarrow> ''int'' | PyObj tn ds s \<Rightarrow> tn)"

text \<open>
  \<^verbatim>\<open>getattr(type(obj), '__str__', object.__str__) is not object.__str__\<close>, for an
  object that is not an instance of the string types.
\<close>

definition has_explicit_str :: "host \<Rightarrow> pyval \<Rightarrow> bool" where
  "has_explicit_str h obj =
     (case obj of PyBool b \<Rightarrow> bool_has_str h | PyInt i \<Rightarrow> int_has_str h | PyObj tn ds s \<Rightarrow> ds
      | _ \<Rightarrow> True)"

text \<open>\<^verbatim>\<open>str(obj)\<close>\<close>

definition py_str :: "host \<Rightarrow> pyval \<Rightarrow> string" where
  "py_str h obj =
     (case obj of PyStr s \<Rightarrow> s | PyBool b \<Rightarrow> (if b then ''True'' else ''False'')
      | PyInt i \<Rightarrow> repr_int i | PyObj tn ds s \<Rightarrow> s | _ \<Rightarrow> builtin_str h obj)"

definition to_strlike :: "host \<Rightarrow> pyval \<Rightarrow> error + pyval" where
  "to_strlike h obj =
     (if isinstance_STR_TYPES obj then Inr obj
      else if \<not> has_explicit_str h obj then
        Inl (TypeError (''Object of type '' @ [CHR 0x27] @ type_name_of obj @ [CHR 0x27]
                        @ '' can'' @ [CHR 0x27] @ ''t be converted to string''))
      else Inr (PyStr (py_str h obj)))"

text \<open>
  A generator is the list of values it yields and the exception that ends it, if one
  does. \<open>yield\<close> puts one value in front of what the rest of the generator produces.
\<close>

definition yield :: "'a \<Rightarrow> 'a gen \<Rightarrow> 'a gen" where
  "yield x g = (x # fst g, snd g)"

definition str_replace :: "char \<Rightarrow> char \<Rightarrow> string \<Rightarrow> string" where
  "str_replace a b s = map (\<lambda>c. if c = a then b else c) s"

definition startswith :: "string \<Rightarrow> char \<Rightarrow> bool" where
  "startswith s c = (case s of [] \<Rightarrow> False | x # _ \<Rightarrow> x = c)"

definition endswith :: "string \<Rightarrow> char \<Rightarrow> bool" where
  "endswith s c = (case rev s of [] \<Rightarrow> False | x # _ \<Rightarrow> x = c)"

text \<open>The rewriting of an option's key, lines 134 to 139.\<close>

definition option_key :: "string \<Rightarrow> string" where
  "option_key key0 =
     (let key = str_replace (CHR ''_'') (CHR ''-'') key0 in
      if \<not> startswith key (CHR ''-'') then
        (if length key = 1 then ''-'' @ key else ''--'' @ key)
      else key)"

fun parse_args :: "host \<Rightarrow> pyval list \<Rightarrow> pyval gen" where
  "parse_args h [] = ([], None)"
| "parse_args h (arg # args) =
     (case to_strlike h arg of
        Inl e \<Rightarrow> ([], Some e)
      | Inr t \<Rightarrow> yield t (parse_args h args))"

fun parse :: "host \<Rightarrow> pyval list \<Rightarrow> (string \<times> pyval) list \<Rightarrow> pyval gen" where
  "parse h args [] = parse_args h args"
| "parse h args ((key0, v) # opts) =
     (let key = option_key key0 in
      if v = PyBool False then parse h args opts
      else if v = PyBool True then yield (PyStr key) (parse h args opts)
      else yield (PyStr key)
             (case to_strlike h v of
                Inl e \<Rightarrow> ([], Some e)
              | Inr t \<Rightarrow> yield t (parse h args opts)))"

text \<open>\<^verbatim>\<open>tuple(g)\<close>: the values of a generator, or the exception that ended it.\<close>

definition tuple_of :: "'a gen \<Rightarrow> error + 'a list" where
  "tuple_of g = (case snd g of Some e \<Rightarrow> Inl e | None \<Rightarrow> Inr (fst g))"

text \<open>
  The marshalling rules as the specification words them: every named option contributes
  its tokens, then every positional argument contributes one; a token that is a value is
  the value's string-like form, and the first value that has none ends the sequence with
  the error of the conversion.
\<close>

definition spec_option_name :: "string \<Rightarrow> string" where
  "spec_option_name name =
     (let dashed = map (\<lambda>c. if c = CHR ''_'' then CHR ''-'' else c) name in
      if dashed \<noteq> [] \<and> hd dashed = CHR ''-'' then dashed
      else if length dashed = 1 then CHR ''-'' # dashed
      else CHR ''-'' # CHR ''-'' # dashed)"

definition spec_option_tokens :: "host \<Rightarrow> string \<times> pyval \<Rightarrow> (error + pyval) list" where
  "spec_option_tokens h opt =
     (if snd opt = PyBool False then []
      else if snd opt = PyBool True then [Inr (PyStr (spec_option_name (fst opt)))]
      else [Inr (PyStr (spec_option_name (fst opt))), to_strlike h (snd opt)])"

fun spec_emit :: "(error + pyval) list \<Rightarrow> pyval gen" where
  "spec_emit [] = ([], None)"
| "spec_emit (Inl e # rest) = ([], Some e)"
| "spec_emit (Inr t # rest) = (t # fst (spec_emit rest), snd (spec_emit rest))"

definition spec_marshal :: "host \<Rightarrow> pyval list \<Rightarrow> (string \<times> pyval) list \<Rightarrow> pyval gen" where
  "spec_marshal h args opts =
     spec_emit (concat (map (spec_option_tokens h) opts) @ map (to_strlike h) args)"

section \<open>The command builder\<close>

definition is_reserved :: "string \<Rightarrow> bool" where
  "is_reserved name = (endswith name (CHR ''_'') \<and> length name > 2)"

record Command =
  Command_args :: "pyval list"
  Command_opts :: "(string \<times> pyval) list"

text \<open>
  The loop of \<^verbatim>\<open>Command.__call__\<close> (lines 512 to 516) over the items of
  \<^verbatim>\<open>opts\<close>, threading \<^verbatim>\<open>process_kwargs\<close> and \<^verbatim>\<open>cmd_opts\<close>.
\<close>

fun call_split ::
  "(string \<times> pyval) list \<Rightarrow> (string \<times> pyval) list \<times> (string \<times> pyval) list \<Rightarrow>
   (string \<times> pyval) list \<times> (string \<times> pyval) list" where
  "call_split [] acc = acc"
| "call_split ((key, v) # opts) (process_kwargs, cmd_opts) =
     (if is_reserved key then call_split opts (dict_set process_kwargs (butlast key) v, cmd_opts)
      else call_split opts (process_kwargs, dict_set cmd_opts key v))"

text \<open>
  \<^verbatim>\<open>Command.__call__\<close> up to its last line: the result is the pair
  \<^verbatim>\<open>(argv, process_kwargs)\<close> that \<^verbatim>\<open>Process(argv, **process_kwargs)\<close> is
  constructed from, or the exception the marshaller raised.
\<close>

definition Command_call ::
  "host \<Rightarrow> Command \<Rightarrow> pyval list \<Rightarrow> (string \<times> pyval) list \<Rightarrow>
   error + (pyval list \<times> (string \<times> pyval) list)" where
  "Command_call h self args opts =
     (let (process_kwargs, cmd_opts) = call_split opts (Command_opts self, []) in
      case tuple_of (parse h args cmd_opts) of
        Inl e \<Rightarrow> Inl e
      | Inr toks \<Rightarrow>
          (let argv = Command_args self @ toks;
               process_kwargs = dict_setdefault process_kwargs ''wait'' (PyBool True)
           in Inr (argv, process_kwargs)))"

section \<open>The error taxonomy\<close>

text \<open>
  \<^verbatim>\<open>_SIGNAL_CODES\<close> and \<^verbatim>\<open>_SIGNAL_NAMES\<close>, built by the two dict
  comprehensions of lines 162 to 173.
\<close>

definition SIGNAL_CODES :: "host \<Rightarrow> (string \<times> int) list" where
  "SIGNAL_CODES h = foldl (\<lambda>d (name, signal). dict_set d name (- signal)) [] (Signals h)"

definition SIGNAL_NAMES :: "host \<Rightarrow> (int \<times> string) list" where
  "SIGNAL_NAMES h = foldl (\<lambda>d (name, v). dict_set d v name) [] (SIGNAL_CODES h)"

text \<open>
  \<^verbatim>\<open>isinstance(returncode, int)\<close> holds of integers and of the two booleans, which
  compare and hash as 1 and 0; the normalised code is given as that integer.
\<close>

definition int_value :: "pyval \<Rightarrow> int option" where
  "int_value v = (case v of PyInt i \<Rightarrow> Some i | PyBool b \<Rightarrow> Some (if b then 1 else 0) | _ \<Rightarrow> None)"

definition normalize_code :: "host \<Rightarrow> pyval \<Rightarrow> error + (int \<times> string option)" where
  "normalize_code h returncode =
     (case returncode of
        PyStr name \<Rightarrow>
          (case map_of (SIGNAL_CODES h) name of
             Some c \<Rightarrow> Inr (c, Some name)
           | None \<Rightarrow> Inl (ValueError (''Unknown signal '' @ name)))
      | _ \<Rightarrow>
          (case int_value returncode of
             Some i \<Rightarrow>
               (case map_of (SIGNAL_NAMES h) i of
                  Some name \<Rightarrow> Inr (i, Some name)
                | None \<Rightarrow> Inr (i, None))
           | None \<Rightarrow> Inl (TypeError [])))"

text \<open>
  A class object of the hierarchy: its name, its method resolution order within the
  hierarchy (addresses, the class itself first), its \<^verbatim>\<open>returncode\<close> member and
  whether its own \<^verbatim>\<open>__new__\<close> is the one that raises. Classes live in a store and
  are referred to by address, so \<^verbatim>\<open>is\<close> on classes is equality of addresses.
  \<^verbatim>\<open>CommandError\<close> itself is at address 0.
\<close>

record pyclass =
  cls_name :: string
  cls_mro :: "nat list"
  cls_returncode :: "int option"
  cls_new_raises :: bool

record taxonomy =
  classes :: "pyclass list"
  subclasses :: "(int \<times> nat) list"

definition CommandError :: nat where
  "CommandError = 0"

definition initial_taxonomy :: taxonomy where
  "initial_taxonomy =
     \<lparr>classes = [\<lparr>cls_name = ''CommandError'', cls_mro = [0], cls_returncode = None,
                   cls_new_raises = False\<rparr>],
      subclasses = []\<rparr>"

text \<open>
  \<^verbatim>\<open>repr\<close> of the index a subclass is named after: the signal's name in quotes
  when there is a non-empty one, the number otherwise.
\<close>

definition repr_index :: "int \<Rightarrow> string option \<Rightarrow> string" where
  "repr_index returncode signame =
     (case signame of
        Some n \<Rightarrow> (if n \<noteq> [] then [CHR 0x27] @ n @ [CHR 0x27] else repr_int returncode)
      | None \<Rightarrow> repr_int returncode)"

text \<open>
  \<^verbatim>\<open>CommandError.code\<close>, a class method: \<open>cls\<close> is the address of the class it
  is called on. The store and the memo \<^verbatim>\<open>_subclasses\<close> are threaded through.
\<close>

definition code :: "host \<Rightarrow> taxonomy \<Rightarrow> nat \<Rightarrow> pyval \<Rightarrow> (error + nat) \<times> taxonomy" where
  "code h s cls returncode0 =
     (case normalize_code h returncode0 of
        Inl e \<Rightarrow> (Inl e, s)
      | Inr (returncode, signame) \<Rightarrow>
          (let s' = (if \<not> dict_contains (subclasses s) returncode then
                       (let name = cls_name (classes s ! cls) @ ''[''
                                   @ repr_index returncode signame @ '']'';
                            subclass = \<lparr>cls_name = name,
                                        cls_mro = length (classes s) # cls_mro (classes s ! cls),
                                        cls_returncode = Some returncode,
                                        cls_new_raises = True\<rparr>
                        in s\<lparr>classes := classes s @ [subclass],
                             subclasses := dict_setdefault (subclasses s) returncode
                                             (length (classes s))\<rparr>)
                     else s)
           in case map_of (subclasses s') returncode of
                Some c \<Rightarrow> (Inr c, s')
              | None \<Rightarrow> (Inl KeyError, s')))"

text \<open>A sequence of lookups, each on the class and with the code given.\<close>

fun codes :: "host \<Rightarrow> taxonomy \<Rightarrow> (nat \<times> pyval) list \<Rightarrow> taxonomy" where
  "codes h s [] = s"
| "codes h s ((cls, rc) # rest) = codes h (snd (code h s cls rc)) rest"

text \<open>
  An exception instance: the class it was created as and the two attributes
  \<^verbatim>\<open>__init__\<close> sets. The process is referred to by its pid.
\<close>

record exc_instance =
  inst_class :: nat
  inst_returncode :: pyval
  inst_process :: nat

text \<open>
  The call \<^verbatim>\<open>cls(returncode, process)\<close>: the \<^verbatim>\<open>__new__\<close> found on \<open>cls\<close> is
  the raising one of a generated subclass, or that of \<^verbatim>\<open>CommandError\<close> (lines 186
  to 189), whose result is an instance of the class \<^verbatim>\<open>CommandError.code\<close> returns;
  \<^verbatim>\<open>__init__\<close> then stores both arguments.
\<close>

definition CommandError_call ::
  "host \<Rightarrow> taxonomy \<Rightarrow> nat \<Rightarrow> pyval \<Rightarrow> nat \<Rightarrow> (error + exc_instance) \<times> taxonomy" where
  "CommandError_call h s cls returncode process =
     (if cls_new_raises (classes s ! cls) then
        (Inl (TypeError ''Cannot instantiate CommandError subclasses''), s)
      else
        (case code h s CommandError returncode of
           (Inl e, s') \<Rightarrow> (Inl e, s')
         | (Inr subclass, s') \<Rightarrow>
             (Inr \<lparr>inst_class = subclass, inst_returncode = returncode,
                   inst_process = process\<rparr>, s')))"

definition issubclass :: "taxonomy \<Rightarrow> nat \<Rightarrow> nat \<Rightarrow> bool" where
  "issubclass s c base = (base \<in> set (cls_mro (classes s ! c)))"

definition isinstance :: "taxonomy \<Rightarrow> exc_instance \<Rightarrow> nat \<Rightarrow> bool" where
  "isinstance s obj base = issubclass s (inst_class obj) base"

text \<open>
  The states the module can be in: every class of the store descends from
  \<^verbatim>\<open>CommandError\<close>, which is at address 0 and keeps its own \<^verbatim>\<open>__new__\<close>; every
  other class is a generated one; the memo holds, under each code, the address of a
  generated class whose \<^verbatim>\<open>returncode\<close> member is that code.
\<close>

definition taxonomy_ok :: "taxonomy \<Rightarrow> bool" where
  "taxonomy_ok s =
     (classes s \<noteq> [] \<and> \<not> cls_new_raises (classes s ! 0)
      \<and> list_all (\<lambda>c. CommandError \<in> set (cls_mro c)) (classes s)
      \<and> list_all cls_new_raises (tl (classes s))
      \<and> list_all (\<lambda>(k, a). 0 < a \<and> a < length (classes s)
                          \<and> cls_returncode (classes s ! a) = Some k) (subclasses s))"

section \<open>Process handles\<close>

text \<open>
  What a stream argument of \<^verbatim>\<open>subprocess.Popen\<close> can be: one of the three special
  values, a file descriptor, or a file object (a stream, referred to by its identity).
  \<^verbatim>\<open>None\<close> and an absent keyword are both \<open>None\<close> of the option type, as
  \<^verbatim>\<open>kwargs.get\<close> does not tell them apart.
\<close>

datatype redirect = PIPE | STDOUT | DEVNULL | Fd nat | FileObj nat

record popen_kwargs =
  kw_stdin :: "redirect option"
  kw_stdout :: "redirect option"
  kw_stderr :: "redirect option"
  kw_shell :: bool
  kw_universal_newlines :: "pyval option"
  kw_other :: "(string \<times> pyval) list"

datatype cmd = CmdStr pyval | CmdSeq "pyval list"

datatype process =
  Process (p_args: cmd) (p_check: bool) (p_tail: "process option")
          (p_stdin: "nat option") (p_stdout: "nat option") (p_stderr: "nat option")
          (p_pid: nat)

text \<open>The parameters of \<^verbatim>\<open>Process.__init__\<close> after \<^verbatim>\<open>args\<close>.\<close>

record init_args =
  arg_check :: bool
  arg_tail :: "process option"
  arg_input :: "pyval option"
  arg_wait :: bool
  arg_timeout :: "rat option"
  arg_capture_stdout :: bool
  arg_capture_stderr :: bool
  arg_kwargs :: popen_kwargs

definition no_kwargs :: popen_kwargs where
  "no_kwargs = \<lparr>kw_stdin = None, kw_stdout = None, kw_stderr = None, kw_shell = False,
                 kw_universal_newlines = None, kw_other = []\<rparr>"

definition default_args :: init_args where
  "default_args = \<lparr>arg_check = True, arg_tail = None, arg_input = None, arg_wait = False,
                    arg_timeout = None, arg_capture_stdout = False,
                    arg_capture_stderr = False, arg_kwargs = no_kwargs\<rparr>"

text \<open>
  The world outside the module: a supply of fresh identities for processes and streams,
  the reading of the monotonic clock, and the calls made so far. What the operating
  system answers is given by an environment of oracles, each of which sees the calls
  made so far: whether spawning fails, whether a write or a close fails, and what
  \<^verbatim>\<open>Popen.wait\<close> returns and when (\<open>None\<close> when it never returns).
\<close>

datatype event =
    Spawned nat cmd popen_kwargs
  | Written nat bool pyval
  | Closed nat
  | Waited nat "rat option"

record world =
  next_id :: nat
  now :: rat
  trace :: "event list"

record env =
  popen_error :: "event list \<Rightarrow> cmd \<Rightarrow> popen_kwargs \<Rightarrow> error option"
  write_error :: "event list \<Rightarrow> nat \<Rightarrow> bool \<Rightarrow> pyval \<Rightarrow> error option"
  close_error :: "event list \<Rightarrow> nat \<Rightarrow> error option"
  popen_wait :: "event list \<Rightarrow> nat \<Rightarrow> rat option \<Rightarrow> rat \<Rightarrow> ((error + int) \<times> rat) option"

definition record_event :: "event \<Rightarrow> world \<Rightarrow> world" where
  "record_event e w = w\<lparr>trace := trace w @ [e]\<rparr>"

definition bind_err :: "error + 'a \<Rightarrow> ('a \<Rightarrow> error + 'b) \<Rightarrow> error + 'b" where
  "bind_err r f = (case r of Inl e \<Rightarrow> Inl e | Inr x \<Rightarrow> f x)"

fun join_space :: "string list \<Rightarrow> string" where
  "join_space [] = []"
| "join_space [x] = x"
| "join_space (x # y # ys) = x @ '' '' @ join_space (y # ys)"

subsection \<open>The checks before the launch, lines 274 to 307\<close>

definition shell_args :: "host \<Rightarrow> cmd \<Rightarrow> popen_kwargs \<Rightarrow> cmd" where
  "shell_args h args kwargs =
     (case args of
        CmdSeq xs \<Rightarrow> (if kw_shell kwargs then CmdStr (PyStr (join_space (map (py_str h) xs)))
                       else args)
      | CmdStr s \<Rightarrow> args)"

definition set_universal_newlines :: "popen_kwargs \<Rightarrow> error + popen_kwargs" where
  "set_universal_newlines kwargs =
     (if (case kw_universal_newlines kwargs of None \<Rightarrow> PyBool True | Some v \<Rightarrow> v) \<noteq> PyBool True
      then Inl (ValueError (''Can'' @ [CHR 0x27] @ ''t override universal_newlines''))
      else Inr (kwargs\<lparr>kw_universal_newlines := Some (PyBool True)\<rparr>))"

definition pipe_stdin :: "process option \<Rightarrow> popen_kwargs \<Rightarrow> error + popen_kwargs" where
  "pipe_stdin tail kwargs =
     (case tail of
        None \<Rightarrow> Inr kwargs
      | Some t \<Rightarrow>
          (if kw_stdin kwargs \<noteq> None then
             Inl (ValueError (''Can'' @ [CHR 0x27] @ ''t pipe and set stdin at the same time''))
           else Inr (kwargs\<lparr>kw_stdin := map_option FileObj (p_stdout t)\<rparr>)))"

definition input_stdin :: "pyval option \<Rightarrow> popen_kwargs \<Rightarrow> error + popen_kwargs" where
  "input_stdin input kwargs =
     (case input of
        None \<Rightarrow> Inr kwargs
      | Some data \<Rightarrow>
          (if kw_stdin kwargs \<noteq> None then
             Inl (ValueError (''Can'' @ [CHR 0x27] @ ''t input and set stdin at the same time''))
           else Inr (kwargs\<lparr>kw_stdin := Some PIPE\<rparr>)))"

definition capture_out :: "bool \<Rightarrow> popen_kwargs \<Rightarrow> error + popen_kwargs" where
  "capture_out capture_stdout kwargs =
     (if capture_stdout then
        (if kw_stdout kwargs \<noteq> None then
           Inl (ValueError (''Can'' @ [CHR 0x27] @ ''t capture stdout if redirecting it''))
         else Inr (kwargs\<lparr>kw_stdout := Some PIPE\<rparr>))
      else Inr kwargs)"

definition capture_err :: "bool \<Rightarrow> popen_kwargs \<Rightarrow> error + popen_kwargs" where
  "capture_err capture_stderr kwargs =
     (if capture_stderr then
        (if kw_stderr kwargs \<noteq> None then
           Inl (ValueError (''Can'' @ [CHR 0x27] @ ''t capture stderr if redirecting it''))
         else Inr (kwargs\<lparr>kw_stderr := Some PIPE\<rparr>))
      else Inr kwargs)"

definition configure :: "host \<Rightarrow> cmd \<Rightarrow> init_args \<Rightarrow> error + (cmd \<times> popen_kwargs)" where
  "configure h args a =
     (let args = shell_args h args (arg_kwargs a) in
      bind_err (set_universal_newlines (arg_kwargs a)) (\<lambda>kwargs.
      bind_err (pipe_stdin (arg_tail a) kwargs) (\<lambda>kwargs.
      bind_err (input_stdin (arg_input a) kwargs) (\<lambda>kwargs.
      bind_err (capture_out (arg_capture_stdout a) kwargs) (\<lambda>kwargs.
      bind_err (capture_err (arg_capture_stderr a) kwargs) (\<lambda>kwargs.
      Inr (args, kwargs)))))))"

subsection \<open>The launch, line 309\<close>

text \<open>
  \<^verbatim>\<open>subprocess.Popen.__init__\<close> belongs to the standard library. Of what it does
  the module relies on this: it raises or it spawns a child, and it leaves a stream in
  \<^verbatim>\<open>stdin\<close>, \<^verbatim>\<open>stdout\<close> and \<^verbatim>\<open>stderr\<close> exactly where the argument was
  \<^verbatim>\<open>PIPE\<close>.
\<close>

definition Popen_init ::
  "env \<Rightarrow> world \<Rightarrow> cmd \<Rightarrow> popen_kwargs \<Rightarrow>
   (error + (nat \<times> nat option \<times> nat option \<times> nat option)) \<times> world" where
  "Popen_init ev w args kwargs =
     (case popen_error ev (trace w) args kwargs of
        Some e \<Rightarrow> (Inl e, w)
      | None \<Rightarrow>
          (let pid = next_id w;
               si = (if kw_stdin kwargs = Some PIPE then Some (pid + 1) else None);
               so = (if kw_stdout kwargs = Some PIPE then Some (pid + 2) else None);
               se = (if kw_stderr kwargs = Some PIPE then Some (pid + 3) else None)
           in (Inr (pid, si, so, se),
               record_event (Spawned pid args kwargs) (w\<lparr>next_id := pid + 4\<rparr>))))"

subsection \<open>Writing the literal input, lines 317 to 329\<close>

definition swallowed :: "host \<Rightarrow> error \<Rightarrow> bool" where
  "swallowed h e =
     (case e of IOError errno \<Rightarrow> \<not> (errno \<notin> {Some (EINVAL h), Some (EPIPE h)}) | _ \<Rightarrow> False)"

definition write_input ::
  "env \<Rightarrow> host \<Rightarrow> world \<Rightarrow> nat option \<Rightarrow> pyval option \<Rightarrow> (error + unit) \<times> world" where
  "write_input ev h w stdin input =
     (case input of
        None \<Rightarrow> (Inr (), w)
      | Some data \<Rightarrow>
          (case stdin of
             None \<Rightarrow> (Inl (TypeError (''Couldn'' @ [CHR 0x27] @ ''t find stdin'')), w)
           | Some s \<Rightarrow>
               (let via_buffer = (case data of PyBytes b \<Rightarrow> True | _ \<Rightarrow> False);
                    raised = write_error ev (trace w) s via_buffer data;
                    w1 = record_event (Written s via_buffer data) w;
                    pending = (case raised of
                                 None \<Rightarrow> None
                               | Some e \<Rightarrow> (if swallowed h e then None else Some e));
                    closing = close_error ev (trace w1) s;
                    w2 = record_event (Closed s) w1
                in case closing of
                     Some e \<Rightarrow> (Inl e, w2)
                   | None \<Rightarrow> (case pending of Some e \<Rightarrow> (Inl e, w2) | None \<Rightarrow> (Inr (), w2)))))"

subsection \<open>Waiting, lines 362 to 388\<close>

definition Popen_wait ::
  "env \<Rightarrow> process \<Rightarrow> rat option \<Rightarrow> world \<Rightarrow> ((error + int) \<times> world) option" where
  "Popen_wait ev p timeout w =
     (case popen_wait ev (trace w) (p_pid p) timeout (now w) of
        None \<Rightarrow> None
      | Some (r, t) \<Rightarrow> Some (r, record_event (Waited (p_pid p) timeout) (w\<lparr>now := t\<rparr>)))"

fun Process_wait ::
  "env \<Rightarrow> process \<Rightarrow> rat option \<Rightarrow> world \<Rightarrow> ((error + int) \<times> world) option" where
  "Process_wait ev (Process args check tail si so se pid) None w =
     (case tail of
        None \<Rightarrow> Popen_wait ev (Process args check tail si so se pid) None w
      | Some t \<Rightarrow>
          (case Process_wait ev t None w of
             None \<Rightarrow> None
           | Some (Inl e, w1) \<Rightarrow> Some (Inl e, w1)
           | Some (Inr rc, w1) \<Rightarrow>
               Popen_wait ev (Process args check tail si so se pid) None w1))"
| "Process_wait ev (Process args check tail si so se pid) (Some timeout) w =
     (let orig_time = now w in
      case tail of
        None \<Rightarrow>
          (let rest = orig_time + timeout - now w in
           Popen_wait ev (Process args check tail si so se pid) (Some rest) w)
      | Some t \<Rightarrow>
          (case Process_wait ev t (Some timeout) w of
             None \<Rightarrow> None
           | Some (Inl e, w1) \<Rightarrow> Some (Inl e, w1)
           | Some (Inr rc, w1) \<Rightarrow>
               (let rest = orig_time + timeout - now w1 in
                Popen_wait ev (Process args check tail si so se pid) (Some rest) w1)))"

definition check_returncode ::
  "env \<Rightarrow> process \<Rightarrow> world \<Rightarrow> ((error + unit) \<times> world) option" where
  "check_returncode ev p w =
     (case Process_wait ev p None w of
        None \<Rightarrow> None
      | Some (Inl e, w1) \<Rightarrow> Some (Inl e, w1)
      | Some (Inr returncode, w1) \<Rightarrow>
          (if returncode \<noteq> 0 then Some (Inl (CommandError_raised returncode (p_pid p)), w1)
           else Some (Inr (), w1)))"

definition wait_and_check ::
  "env \<Rightarrow> process \<Rightarrow> bool \<Rightarrow> rat option \<Rightarrow> world \<Rightarrow> ((error + unit) \<times> world) option" where
  "wait_and_check ev p wait timeout w =
     (if wait \<or> timeout \<noteq> None then
        (case Process_wait ev p timeout w of
           None \<Rightarrow> None
         | Some (Inl e, w1) \<Rightarrow> Some (Inl e, w1)
         | Some (Inr rc, w1) \<Rightarrow>
             (if p_check p then check_returncode ev p w1 else Some (Inr (), w1)))
      else Some (Inr (), w))"

text \<open>
  What the module expects of \<^verbatim>\<open>Popen.wait\<close> when it is given a timeout: the call
  returns, the clock does not run backwards, a call that succeeds does so within the
  timeout (at once when the timeout is not positive), and a call that fails raises
  \<^verbatim>\<open>TimeoutExpired\<close>.
\<close>

definition timely_env :: "env \<Rightarrow> bool" where
  "timely_env ev =
     (\<forall>tr pid r t0.
        case popen_wait ev tr pid (Some r) t0 of
          None \<Rightarrow> False
        | Some (Inl e, t1) \<Rightarrow> e = TimeoutExpired \<and> t0 \<le> t1
        | Some (Inr rc, t1) \<Rightarrow> t0 \<le> t1 \<and> t1 \<le> t0 + max r 0)"

subsection \<open>The constructor\<close>

text \<open>Lines 331 to 337, and the handle the constructor returns when nothing is raised.\<close>

definition finish_init ::
  "env \<Rightarrow> process \<Rightarrow> init_args \<Rightarrow> world \<Rightarrow> ((error + process) \<times> world) option" where
  "finish_init ev self a w =
     (case wait_and_check ev self (arg_wait a) (arg_timeout a) w of
        None \<Rightarrow> None
      | Some (Inl e, w1) \<Rightarrow> Some (Inl e, w1)
      | Some (Inr u, w1) \<Rightarrow> Some (Inr self, w1))"

definition Process_init ::
  "env \<Rightarrow> host \<Rightarrow> world \<Rightarrow> cmd \<Rightarrow> init_args \<Rightarrow> ((error + process) \<times> world) option" where
  "Process_init ev h w args0 a =
     (case configure h args0 a of
        Inl e \<Rightarrow> Some (Inl e, w)
      | Inr (args, kwargs) \<Rightarrow>
          (case Popen_init ev w args kwargs of
             (Inl e, w1) \<Rightarrow> Some (Inl e, w1)
           | (Inr (pid, si, so, se), w1) \<Rightarrow>
               (let stdin = (case arg_tail a of None \<Rightarrow> si | Some t \<Rightarrow> p_stdin t);
                    self = Process args (arg_check a) (arg_tail a) stdin so se pid
                in case write_input ev h w1 (p_stdin self) (arg_input a) of
                     (Inl e, w2) \<Rightarrow> Some (Inl e, w2)
                   | (Inr u, w2) \<Rightarrow> finish_init ev self a w2)))"

text \<open>The head of a pipeline: the handle reached by following \<^verbatim>\<open>tail\<close> to the end.\<close>

fun pipeline_head :: "process \<Rightarrow> process" where
  "pipeline_head (Process args check tail si so se pid) =
     (case tail of None \<Rightarrow> Process args check tail si so se pid
      | Some t \<Rightarrow> pipeline_head t)"

text \<open>
  A pipeline as the constructor builds it: at every link the handle's \<^verbatim>\<open>stdin\<close>
  is that of its predecessor.
\<close>

fun stdin_rebound :: "process \<Rightarrow> bool" where
  "stdin_rebound (Process args check tail si so se pid) =
     (case tail of None \<Rightarrow> True | Some t \<Rightarrow> si = p_stdin t \<and> stdin_rebound t)"

section \<open>Concrete inputs\<close>

text \<open>A host of the Python 3.7 kind with four signals, and an operating system on which
  nothing fails and every child exits at once with status 0.\<close>

definition example_host :: host where
  "example_host =
     \<lparr>bool_has_str = True, int_has_str = True, builtin_str = (\<lambda>v. []),
      Signals = [(''SIGHUP'', 1), (''SIGINT'', 2), (''SIGKILL'', 9), (''SIGTERM'', 15)],
      EINVAL = 22, EPIPE = 32\<rparr>"

definition quiet_env :: env where
  "quiet_env =
     \<lparr>popen_error = (\<lambda>tr args kwargs. None),
      write_error = (\<lambda>tr s via_buffer data. None),
      close_error = (\<lambda>tr s. None),
      popen_wait = (\<lambda>tr pid timeout t. Some (Inr 0, t))\<rparr>"

definition initial_world :: world where
  "initial_world = \<lparr>next_id = 0, now = 0, trace = []\<rparr>"

text \<open>
  An operating system on which writing fails with \<^verbatim>\<open>EPIPE\<close>, and two handles
  launched earlier without a predecessor: the one of \<^verbatim>\<open>Process(['true'])\<close>, which
  has no stream, and the one of \<^verbatim>\<open>Process(['cat'], stdin=PIPE)\<close>, which has an
  input stream and no output stream, each with the world its launch leaves.
\<close>

definition broken_pipe_env :: env where
  "broken_pipe_env =
     quiet_env\<lparr>write_error := (\<lambda>tr s via_buffer data. Some (IOError (Some 32)))\<rparr>"

text \<open>
  An operating system on which the write is taken into the stream's buffer and the
  broken pipe shows only when the stream is closed: writing succeeds and closing fails
  with \<^verbatim>\<open>EPIPE\<close>, as when the child has exited without reading.
\<close>

definition broken_pipe_on_close_env :: env where
  "broken_pipe_on_close_env =
     quiet_env\<lparr>close_error := (\<lambda>tr s. Some (IOError (Some 32)))\<rparr>"

text \<open>
  An operating system on which the child with pid 0 exits at time 1/10 and every other
  child at time 0, all with status 0, and a pipeline of two handles, the first with
  pid 0 and an output stream, as \<^verbatim>\<open>sh.sleep.pipe_(0.1).true(wait_=False)\<close> makes
  it.
\<close>

definition sleepy_env :: env where
  "sleepy_env =
     quiet_env\<lparr>popen_wait := (\<lambda>tr pid timeout t.
        let exit_time = (if pid = 0 then 1 / 10 else 0) in
        case timeout of
          None \<Rightarrow> Some (Inr 0, max t exit_time)
        | Some r \<Rightarrow> (if exit_time \<le> t + max r 0 then Some (Inr 0, max t exit_time)
                     else Some (Inl TimeoutExpired, t + max r 0)))\<rparr>"

definition sleep_true :: process where
  "sleep_true =
     Process (CmdSeq [PyStr ''true'']) True
       (Some (Process (CmdSeq [PyStr ''sleep'', PyStr ''0.1'']) False None None (Some 2) None 0))
       None None None 4"

definition streamless_process :: process where
  "streamless_process = Process (CmdSeq [PyStr ''true'']) True None None None None 0"

definition writable_process :: process where
  "writable_process = Process (CmdSeq [PyStr ''cat'']) True None (Some 1) None None 0"

definition world_after_true :: world where
  "world_after_true =
     \<lparr>next_id = 4, now = 0,
      trace = [Spawned 0 (CmdSeq [PyStr ''true''])
                 (no_kwargs\<lparr>kw_universal_newlines := Some (PyBool True)\<rparr>)]\<rparr>"

definition world_after_cat :: world where
  "world_after_cat =
     \<lparr>next_id = 4, now = 0,
      trace = [Spawned 0 (CmdSeq [PyStr ''cat''])
                 (no_kwargs\<lparr>kw_stdin := Some PIPE,
                            kw_universal_newlines := Some (PyBool True)\<rparr>)]\<rparr>"

section \<open>Properties of the argument marshaller\<close>

lemma option_key_spec: "option_key k = spec_option_name k"
  by (auto simp: option_key_def spec_option_name_def str_replace_def startswith_def Let_def
      split: list.splits)

lemma parse_args_spec: "parse_args h args = spec_emit (map (to_strlike h) args)"
  by (induction args) (auto simp: yield_def split: sum.splits)

text \<open>
  C1: the generator \<^verbatim>\<open>_parse\<close> yields what the marshalling rules say. The named
  options come first and the positional arguments follow in their order; an option's
  name has its underscores replaced by dashes and, unless it then starts with a dash,
  gets one dash when it is a single character and two otherwise; \<^verbatim>\<open>False\<close> yields
  nothing, \<^verbatim>\<open>True\<close> yields the name alone, any other value yields the name and then
  the string-like form of the value.
\<close>

theorem parse_marshals: "parse h args opts = spec_marshal h args opts"
proof (induction opts)
  case Nil
  show ?case by (simp add: spec_marshal_def parse_args_spec)
next
  case (Cons o1 opts)
  obtain k v where o1: "o1 = (k, v)" by (cases o1)
  show ?case using Cons
    by (auto simp: o1 spec_marshal_def spec_option_tokens_def option_key_spec yield_def Let_def
        split: sum.splits)
qed

text \<open>
  C9: a value that is text, bytes or path-like is returned as it is. Any other value is
  converted exactly when its type defines a string conversion of its own, and then to
  the text \<^verbatim>\<open>str\<close> gives; otherwise the conversion fails with a type error.
\<close>

theorem to_strlike_conversion:
  "to_strlike h (PyStr s) = Inr (PyStr s)
   \<and> to_strlike h (PyBytes b) = Inr (PyBytes b)
   \<and> to_strlike h (PyPath p) = Inr (PyPath p)
   \<and> (\<not> isinstance_STR_TYPES obj \<longrightarrow>
        ((\<exists>t. to_strlike h obj = Inr t) \<longleftrightarrow> has_explicit_str h obj)
      \<and> (has_explicit_str h obj \<longrightarrow> to_strlike h obj = Inr (PyStr (py_str h obj)))
      \<and> (\<not> has_explicit_str h obj \<longrightarrow> (\<exists>msg. to_strlike h obj = Inl (TypeError msg))))"
  by (simp add: to_strlike_def isinstance_STR_TYPES_def)

text \<open>The theorem at an object of a type without \<^verbatim>\<open>__str__\<close> and at a float.\<close>

theorem to_strlike_conversion_witness:
  "\<not> isinstance_STR_TYPES (PyObj ''UnstringableType'' False ''<object>'')
   \<and> \<not> has_explicit_str example_host (PyObj ''UnstringableType'' False ''<object>'')
   \<and> (\<exists>msg. to_strlike example_host (PyObj ''UnstringableType'' False ''<object>'')
              = Inl (TypeError msg))
   \<and> \<not> isinstance_STR_TYPES (PyObj ''float'' True ''100.0'')
   \<and> has_explicit_str example_host (PyObj ''float'' True ''100.0'')
   \<and> to_strlike example_host (PyObj ''float'' True ''100.0'') = Inr (PyStr ''100.0'')"
  using to_strlike_conversion [of example_host "[]" "[]" "[]" "PyObj ''UnstringableType'' False ''<object>''"]
    to_strlike_conversion [of example_host "[]" "[]" "[]" "PyObj ''float'' True ''100.0''"]
  by (simp add: isinstance_STR_TYPES_def has_explicit_str_def py_str_def)

section \<open>Properties of the command builder\<close>

lemma map_of_dict_set: "map_of (dict_set d k v) = (map_of d)(k \<mapsto> v)"
  by (induction d) (auto simp: fun_eq_iff)

lemma dict_set_fresh: "k \<notin> fst ` set d \<Longrightarrow> dict_set d k v = d @ [(k, v)]"
  by (induction d) auto

lemma map_of_dict_setdefault:
  "map_of (dict_setdefault d k v) = (case map_of d k of None \<Rightarrow> (map_of d)(k \<mapsto> v) | Some x \<Rightarrow> map_of d)"
  by (auto simp: dict_setdefault_def dict_contains_def map_of_dict_set split: option.splits)

lemma call_split_kwargs:
  "map_of (fst (call_split opts (pk, co))) =
     map_of pk ++ map_of (rev (map (\<lambda>kv. (butlast (fst kv), snd kv)) (filter (\<lambda>kv. is_reserved (fst kv)) opts)))"
proof (induction opts arbitrary: pk co)
  case Nil
  show ?case by simp
next
  case (Cons o1 opts)
  obtain k v where o1: "o1 = (k, v)" by (cases o1)
  show ?case
  proof (cases "is_reserved k")
    case True
    have "(map_of pk)(butlast k \<mapsto> v) = map_of pk ++ [butlast k \<mapsto> v]" by simp
    then show ?thesis using True Cons.IH [of "dict_set pk (butlast k) v" co]
      by (simp add: o1 map_of_dict_set del: map_add_upd)
  next
    case False
    then show ?thesis using Cons.IH [of pk "dict_set co k v"] by (simp add: o1)
  qed
qed

lemma call_split_cmd_opts:
  "distinct (map fst opts) \<Longrightarrow> fst ` set co \<inter> fst ` set opts = {} \<Longrightarrow>
   snd (call_split opts (pk, co)) = co @ filter (\<lambda>kv. \<not> is_reserved (fst kv)) opts"
proof (induction opts arbitrary: pk co)
  case Nil
  show ?case by simp
next
  case (Cons o1 opts)
  obtain k v where o1: "o1 = (k, v)" by (cases o1)
  show ?case
  proof (cases "is_reserved k")
    case True
    have "fst ` set co \<inter> fst ` set opts = {}" using Cons.prems by auto
    then show ?thesis using True Cons by (simp add: o1)
  next
    case False
    have fresh: "k \<notin> fst ` set co" using Cons.prems by (auto simp: o1)
    have "fst ` set (co @ [(k, v)]) \<inter> fst ` set opts = {}"
      using Cons.prems by (auto simp: o1)
    then have "snd (call_split opts (pk, co @ [(k, v)])) =
            (co @ [(k, v)]) @ filter (\<lambda>kv. \<not> is_reserved (fst kv)) opts"
      using Cons.IH [of "co @ [(k, v)]" pk] Cons.prems by simp
    then show ?thesis using False fresh by (simp add: o1 dict_set_fresh)
  qed
qed

lemma reserved_key_split: "is_reserved k \<Longrightarrow> k = butlast k @ ''_''"
  by (cases k rule: rev_cases) (auto simp: is_reserved_def endswith_def)

lemma stripped_distinct:
  "distinct (map fst opts) \<Longrightarrow>
   distinct (map fst (map (\<lambda>kv. (butlast (fst kv), snd kv)) (filter (\<lambda>kv. is_reserved (fst kv)) opts)))"
proof (induction opts)
  case Nil
  show ?case by simp
next
  case (Cons o1 opts)
  show ?case
  proof (cases "is_reserved (fst o1)")
    case False
    then show ?thesis using Cons by simp
  next
    case True
    have "butlast (fst o1) \<noteq> butlast (fst kv)" if "kv \<in> set opts" "is_reserved (fst kv)" for kv
    proof
      assume "butlast (fst o1) = butlast (fst kv)"
      then have "fst o1 = fst kv"
        using reserved_key_split [OF True] reserved_key_split [OF that(2)] by metis
      then show False using Cons.prems that(1) by auto
    qed
    then show ?thesis using True Cons by auto
  qed
qed


lemma is_reserved_iff: "is_reserved k \<longleftrightarrow> (\<exists>stem. k = stem @ ''_'' \<and> 2 \<le> length stem)"
  by (cases k rule: rev_cases) (auto simp: is_reserved_def endswith_def)

text \<open>
  C3, as the code has it. A keyword argument is reserved when its name ends in an
  underscore and is longer than two characters. With the keyword arguments a dictionary
  (distinct names), every reserved one reaches the options of \<^verbatim>\<open>Process\<close> under its
  name without the trailing underscore, overriding the template's stored value; every
  other one is marshalled together with the positional arguments; the argv is the
  template's tokens followed by the marshalled ones; every other option of
  \<^verbatim>\<open>Process\<close> is the template's stored one, with \<^verbatim>\<open>wait\<close> defaulting to
  \<^verbatim>\<open>True\<close>. An argument that cannot be marshalled raises before any process is
  constructed.
\<close>

theorem Command_call_routes:
  assumes "distinct (map fst opts)"
  shows "\<exists>process_kwargs.
      Command_call h self args opts =
        (case tuple_of (parse h args (filter (\<lambda>kv. \<not> is_reserved (fst kv)) opts)) of
           Inl e \<Rightarrow> Inl e
         | Inr toks \<Rightarrow> Inr (Command_args self @ toks, process_kwargs))
    \<and> (\<forall>kv \<in> set opts. is_reserved (fst kv) \<longrightarrow>
          map_of process_kwargs (butlast (fst kv)) = Some (snd kv))
    \<and> (\<forall>k. k \<notin> butlast ` {k \<in> fst ` set opts. is_reserved k} \<longrightarrow>
          map_of process_kwargs k =
            (if k = ''wait'' \<and> map_of (Command_opts self) k = None then Some (PyBool True)
             else map_of (Command_opts self) k))
    \<and> (\<forall>k. is_reserved k \<longleftrightarrow> (\<exists>stem. k = stem @ ''_'' \<and> 2 \<le> length stem))"
proof -
  let ?res = "filter (\<lambda>kv. is_reserved (fst kv)) opts"
  let ?stripped = "map (\<lambda>kv. (butlast (fst kv), snd kv)) ?res"
  let ?sp = "call_split opts (Command_opts self, [])"
  let ?pk = "dict_setdefault (fst ?sp) ''wait'' (PyBool True)"
  have co: "snd ?sp = filter (\<lambda>kv. \<not> is_reserved (fst kv)) opts"
    using call_split_cmd_opts [OF assms, of "[]" "Command_opts self"] by simp
  have pk: "map_of (fst ?sp) = map_of (Command_opts self) ++ map_of (rev ?stripped)"
    by (rule call_split_kwargs)
  have dist: "distinct (map fst (rev ?stripped))"
    using stripped_distinct [OF assms] by (simp add: rev_map [symmetric])
  have eq: "Command_call h self args opts =
        (case tuple_of (parse h args (filter (\<lambda>kv. \<not> is_reserved (fst kv)) opts)) of
           Inl e \<Rightarrow> Inl e
         | Inr toks \<Rightarrow> Inr (Command_args self @ toks, ?pk))"
    using co by (simp add: Command_call_def case_prod_beta Let_def split: sum.splits)
  have routed: "map_of ?pk (butlast (fst kv)) = Some (snd kv)"
    if "kv \<in> set opts" "is_reserved (fst kv)" for kv
  proof -
    have "(butlast (fst kv), snd kv) \<in> set (rev ?stripped)" using that by force
    then have "map_of (rev ?stripped) (butlast (fst kv)) = Some (snd kv)"
      using dist by (rule map_of_is_SomeI [rotated])
    then have "map_of (fst ?sp) (butlast (fst kv)) = Some (snd kv)"
      by (simp add: pk map_add_Some_iff)
    then show ?thesis by (auto simp: map_of_dict_setdefault split: option.splits)
  qed
  have kept: "map_of ?pk k =
            (if k = ''wait'' \<and> map_of (Command_opts self) k = None then Some (PyBool True)
             else map_of (Command_opts self) k)"
    if "k \<notin> butlast ` {k \<in> fst ` set opts. is_reserved k}" for k
  proof -
    have "k \<notin> fst ` set (rev ?stripped)" using that by force
    then have "map_of (rev ?stripped) k = None" by (simp add: map_of_eq_None_iff)
    then have "map_of (fst ?sp) k = map_of (Command_opts self) k"
      by (simp add: pk map_add_def)
    then show ?thesis by (auto simp: map_of_dict_setdefault split: option.splits)
  qed
  show ?thesis using eq routed kept is_reserved_iff by blast
qed

text \<open>The theorem at \<^verbatim>\<open>sh.ls('x', cwd_='/', l=True, wait_=False)\<close> with a stored
  \<^verbatim>\<open>cwd\<close>.\<close>

theorem Command_call_routes_witness:
  "distinct (map fst [(''cwd_'', PyStr ''/''), (''l'', PyBool True), (''wait_'', PyBool False)])
   \<and> Command_call example_host
       \<lparr>Command_args = [PyStr ''ls''], Command_opts = [(''cwd'', PyStr ''/tmp'')]\<rparr>
       [PyStr ''x''] [(''cwd_'', PyStr ''/''), (''l'', PyBool True), (''wait_'', PyBool False)]
     = Inr ([PyStr ''ls'', PyStr ''-l'', PyStr ''x''],
            [(''cwd'', PyStr ''/''), (''wait'', PyBool False)])
   \<and> (\<exists>pk. Command_call example_host
       \<lparr>Command_args = [PyStr ''ls''], Command_opts = [(''cwd'', PyStr ''/tmp'')]\<rparr>
       [PyStr ''x''] [(''cwd_'', PyStr ''/''), (''l'', PyBool True), (''wait_'', PyBool False)]
     = Inr ([PyStr ''ls'', PyStr ''-l'', PyStr ''x''], pk) \<and> map_of pk ''cwd'' = Some (PyStr ''/''))"
proof -
  have d: "distinct (map fst [(''cwd_'', PyStr ''/''), (''l'', PyBool True), (''wait_'', PyBool False)])"
    by simp
  have ev: "Command_call example_host
       \<lparr>Command_args = [PyStr ''ls''], Command_opts = [(''cwd'', PyStr ''/tmp'')]\<rparr>
       [PyStr ''x''] [(''cwd_'', PyStr ''/''), (''l'', PyBool True), (''wait_'', PyBool False)]
     = Inr ([PyStr ''ls'', PyStr ''-l'', PyStr ''x''],
            [(''cwd'', PyStr ''/''), (''wait'', PyBool False)])"
    by (simp add: Command_call_def is_reserved_def endswith_def tuple_of_def yield_def
        option_key_def str_replace_def startswith_def to_strlike_def isinstance_STR_TYPES_def
        dict_setdefault_def dict_contains_def)
  from Command_call_routes [OF d, of example_host
       "\<lparr>Command_args = [PyStr ''ls''], Command_opts = [(''cwd'', PyStr ''/tmp'')]\<rparr>" "[PyStr ''x'']"]
  obtain pk where
    "Command_call example_host
       \<lparr>Command_args = [PyStr ''ls''], Command_opts = [(''cwd'', PyStr ''/tmp'')]\<rparr>
       [PyStr ''x''] [(''cwd_'', PyStr ''/''), (''l'', PyBool True), (''wait_'', PyBool False)] =
        (case tuple_of (parse example_host [PyStr ''x''] (filter (\<lambda>kv. \<not> is_reserved (fst kv))
           [(''cwd_'', PyStr ''/''), (''l'', PyBool True), (''wait_'', PyBool False)])) of
           Inl e \<Rightarrow> Inl e
         | Inr toks \<Rightarrow> Inr (Command_args \<lparr>Command_args = [PyStr ''ls''], Command_opts = [(''cwd'', PyStr ''/tmp'')]\<rparr> @ toks, pk))"
    and r: "\<forall>kv \<in> set [(''cwd_'', PyStr ''/''), (''l'', PyBool True), (''wait_'', PyBool False)].
          is_reserved (fst kv) \<longrightarrow> map_of pk (butlast (fst kv)) = Some (snd kv)"
    by blast
  then have "Command_call example_host
       \<lparr>Command_args = [PyStr ''ls''], Command_opts = [(''cwd'', PyStr ''/tmp'')]\<rparr>
       [PyStr ''x''] [(''cwd_'', PyStr ''/''), (''l'', PyBool True), (''wait_'', PyBool False)]
     = Inr ([PyStr ''ls'', PyStr ''-l'', PyStr ''x''], pk)"
    by (simp add: is_reserved_def endswith_def tuple_of_def yield_def
        option_key_def str_replace_def startswith_def to_strlike_def isinstance_STR_TYPES_def)
  moreover have "map_of pk ''cwd'' = Some (PyStr ''/'')"
    using r by (simp add: is_reserved_def endswith_def)
  ultimately show ?thesis using d ev by blast
qed

text \<open>
  C3 as stated fails for a short name: \<^verbatim>\<open>a_\<close> ends in an underscore, yet it is
  marshalled as the option \<^verbatim>\<open>--a-\<close> and \<^verbatim>\<open>Process\<close> receives no option
  \<^verbatim>\<open>a\<close>.
\<close>

theorem Command_call_short_underscore:
  "endswith ''a_'' (CHR ''_'')
   \<and> Command_call example_host \<lparr>Command_args = [PyStr ''ls''], Command_opts = []\<rparr> []
       [(''a_'', PyStr ''v'')]
     = Inr ([PyStr ''ls'', PyStr ''--a-'', PyStr ''v''], [(''wait'', PyBool True)])"
  by (simp add: Command_call_def is_reserved_def endswith_def tuple_of_def yield_def
      option_key_def str_replace_def startswith_def to_strlike_def isinstance_STR_TYPES_def
      dict_setdefault_def dict_contains_def)

section \<open>Properties of the error taxonomy\<close>

lemma list_all_dict_set: "list_all P d \<Longrightarrow> P (k, v) \<Longrightarrow> list_all P (dict_set d k v)"
  by (induction d) auto

lemma map_of_comprehension:
  "map_of (foldl (\<lambda>d (k, v). dict_set d (f k v) (g k v)) d0 xs) =
     map_of d0 ++ map_of (rev (map (\<lambda>(k, v). (f k v, g k v)) xs))"
proof (induction xs arbitrary: d0)
  case Nil
  show ?case by simp
next
  case (Cons x xs)
  obtain k v where x: "x = (k, v)" by (cases x)
  have "(map_of d0)(f k v \<mapsto> g k v) = map_of d0 ++ [f k v \<mapsto> g k v]" by simp
  then show ?case using Cons.IH [of "dict_set d0 (f k v) (g k v)"]
    by (simp add: x map_of_dict_set del: map_add_upd)
qed

lemma SIGNAL_CODES_member:
  assumes "distinct (map fst (Signals h))" and "(name, signal) \<in> set (Signals h)"
  shows "map_of (SIGNAL_CODES h) name = Some (- signal)"
proof -
  let ?xs = "rev (map (\<lambda>(k, v). (k, - v)) (Signals h))"
  have "map fst ?xs = rev (map fst (Signals h))" by (simp add: rev_map case_prod_beta)
  then have d: "distinct (map fst ?xs)" using assms(1) by simp
  have "(name, - signal) \<in> set ?xs" using assms(2) by force
  then have "map_of ?xs name = Some (- signal)" using d by (rule map_of_is_SomeI [rotated])
  then show ?thesis
    using map_of_comprehension [of "\<lambda>k v. k" "\<lambda>k v. - v" "[]" "Signals h"]
    by (simp add: SIGNAL_CODES_def)
qed

lemma normalize_int: "\<exists>sn. normalize_code h (PyInt n) = Inr (n, sn)"
  by (simp add: normalize_code_def int_value_def split: option.splits)

lemma normalize_name:
  "map_of (SIGNAL_CODES h) name = Some m \<Longrightarrow> normalize_code h (PyStr name) = Inr (m, Some name)"
  by (simp add: normalize_code_def)

lemma code_result:
  assumes "normalize_code h x = Inr (n, sn)"
  shows "\<exists>c s'. code h s cls x = (Inr c, s') \<and> map_of (subclasses s') n = Some c"
  using assms
  by (auto simp: code_def Let_def dict_contains_def dict_setdefault_def map_of_dict_set
      split: option.splits)

lemma code_memo_kept:
  "map_of (subclasses s) k = Some a \<Longrightarrow> map_of (subclasses (snd (code h s cls x))) k = Some a"
  by (auto simp: code_def Let_def dict_contains_def dict_setdefault_def map_of_dict_set
      split: sum.splits option.splits)

lemma codes_memo_kept:
  "map_of (subclasses s) k = Some a \<Longrightarrow> map_of (subclasses (codes h s between)) k = Some a"
proof (induction between arbitrary: s)
  case Nil
  then show ?case by simp
next
  case (Cons b between)
  obtain cls x where b: "b = (cls, x)" by (cases b)
  show ?case using Cons.IH [OF code_memo_kept [OF Cons.prems]] by (simp add: b)
qed

lemma code_memoised:
  assumes "normalize_code h x = Inr (n, sn)" and "map_of (subclasses s) n = Some c"
  shows "code h s cls x = (Inr c, s)"
  using assms by (simp add: code_def dict_contains_def)

lemma code_again:
  assumes x: "normalize_code h x = Inr (n, sn)" and y: "normalize_code h y = Inr (n, sn')"
  shows "\<exists>c. fst (code h s cls x) = Inr c
           \<and> code h (codes h (snd (code h s cls x)) between) cls' y
               = (Inr c, codes h (snd (code h s cls x)) between)"
proof -
  obtain c s' where c: "code h s cls x = (Inr c, s')"
    and m: "map_of (subclasses s') n = Some c"
    using code_result [OF x] by blast
  have "map_of (subclasses (codes h s' between)) n = Some c"
    using m by (rule codes_memo_kept)
  then have "code h (codes h s' between) cls' y = (Inr c, codes h s' between)"
    using y by (rule code_memoised [rotated])
  then show ?thesis using c by simp
qed

text \<open>
  C2: the lookup of a numeric code succeeds, and a later lookup of the same code, on
  whatever class and after whatever other lookups, returns the class at the same
  address and leaves the store as it is. For a signal of the host (the names of
  \<^verbatim>\<open>signal.Signals\<close> are distinct), the lookup by name and the lookup by the
  negated number return the class at the same address, whichever comes first.
\<close>

theorem code_identity:
  "(\<exists>c. fst (code h s cls (PyInt n)) = Inr c
       \<and> code h (codes h (snd (code h s cls (PyInt n))) between) cls' (PyInt n)
           = (Inr c, codes h (snd (code h s cls (PyInt n))) between))
   \<and> (distinct (map fst (Signals h)) \<and> (name, signal) \<in> set (Signals h) \<longrightarrow>
        (\<exists>c. fst (code h s cls (PyStr name)) = Inr c
            \<and> code h (codes h (snd (code h s cls (PyStr name))) between) cls' (PyStr name)
                = (Inr c, codes h (snd (code h s cls (PyStr name))) between)
            \<and> code h (codes h (snd (code h s cls (PyStr name))) between) cls' (PyInt (- signal))
                = (Inr c, codes h (snd (code h s cls (PyStr name))) between))
      \<and> (\<exists>c. fst (code h s cls (PyInt (- signal))) = Inr c
            \<and> code h (codes h (snd (code h s cls (PyInt (- signal)))) between) cls' (PyStr name)
                = (Inr c, codes h (snd (code h s cls (PyInt (- signal)))) between)))"
proof -
  obtain sn where n: "normalize_code h (PyInt n) = Inr (n, sn)"
    using normalize_int by blast
  have numeric: "\<exists>c. fst (code h s cls (PyInt n)) = Inr c
       \<and> code h (codes h (snd (code h s cls (PyInt n))) between) cls' (PyInt n)
           = (Inr c, codes h (snd (code h s cls (PyInt n))) between)"
    by (rule code_again [OF n n])
  have named: "(\<exists>c. fst (code h s cls (PyStr name)) = Inr c
            \<and> code h (codes h (snd (code h s cls (PyStr name))) between) cls' (PyStr name)
                = (Inr c, codes h (snd (code h s cls (PyStr name))) between)
            \<and> code h (codes h (snd (code h s cls (PyStr name))) between) cls' (PyInt (- signal))
                = (Inr c, codes h (snd (code h s cls (PyStr name))) between))
      \<and> (\<exists>c. fst (code h s cls (PyInt (- signal))) = Inr c
            \<and> code h (codes h (snd (code h s cls (PyInt (- signal)))) between) cls' (PyStr name)
                = (Inr c, codes h (snd (code h s cls (PyInt (- signal)))) between))"
    if "distinct (map fst (Signals h))" "(name, signal) \<in> set (Signals h)"
  proof -
    have nm: "normalize_code h (PyStr name) = Inr (- signal, Some name)"
      using SIGNAL_CODES_member [OF that] by (rule normalize_name)
    obtain sn' where nr: "normalize_code h (PyInt (- signal)) = Inr (- signal, sn')"
      using normalize_int by blast
    show ?thesis
      using code_again [OF nm nm, of s cls between cls'] code_again [OF nm nr, of s cls between cls']
        code_again [OF nr nm, of s cls between cls']
      by fastforce
  qed
  show ?thesis using numeric named by blast
qed


text \<open>The theorem at \<^verbatim>\<open>SIGTERM\<close>, looked up by name, then by \<^verbatim>\<open>-15\<close> after a
  lookup of code 9.\<close>

theorem code_identity_witness:
  "distinct (map fst (Signals example_host)) \<and> (''SIGTERM'', 15) \<in> set (Signals example_host)
   \<and> (\<exists>c. fst (code example_host initial_taxonomy CommandError (PyStr ''SIGTERM'')) = Inr c
         \<and> fst (code example_host
                  (codes example_host
                     (snd (code example_host initial_taxonomy CommandError (PyStr ''SIGTERM'')))
                     [(CommandError, PyInt 9)])
                  CommandError (PyInt (- 15))) = Inr c)"
proof -
  have d: "distinct (map fst (Signals example_host)) \<and> (''SIGTERM'', 15) \<in> set (Signals example_host)"
    by (simp add: example_host_def)
  then show ?thesis
    using code_identity [of example_host initial_taxonomy CommandError 0
        "[(CommandError, PyInt 9)]" CommandError "''SIGTERM''" 15]
    by fastforce
qed

lemma taxonomy_ok_initial: "taxonomy_ok initial_taxonomy"
  by (simp add: taxonomy_ok_def initial_taxonomy_def CommandError_def)

lemma taxonomy_ok_code:
  assumes ok: "taxonomy_ok s" and cls: "cls < length (classes s)"
  shows "taxonomy_ok (snd (code h s cls x))"
proof (cases "normalize_code h x")
  case (Inl e)
  then show ?thesis using ok by (simp add: code_def)
next
  case (Inr r)
  obtain n sn where r: "r = (n, sn)" by (cases r)
  show ?thesis
  proof (cases "dict_contains (subclasses s) n")
    case True
    then show ?thesis using ok Inr r by (simp add: code_def split: option.splits)
  next
    case False
    let ?sub = "\<lparr>cls_name = cls_name (classes s ! cls) @ ''['' @ repr_index n sn @ '']'',
                 cls_mro = length (classes s) # cls_mro (classes s ! cls),
                 cls_returncode = Some n, cls_new_raises = True\<rparr>"
    let ?s' = "s\<lparr>classes := classes s @ [?sub],
                 subclasses := dict_setdefault (subclasses s) n (length (classes s))\<rparr>"
    have s': "snd (code h s cls x) = ?s'"
      using False Inr r by (simp add: code_def Let_def split: option.splits)
    have ne: "classes s \<noteq> []" and base: "\<not> cls_new_raises (classes s ! 0)"
      and mro: "list_all (\<lambda>c. CommandError \<in> set (cls_mro c)) (classes s)"
      and gen: "list_all cls_new_raises (tl (classes s))"
      and memo: "list_all (\<lambda>(k, a). 0 < a \<and> a < length (classes s)
                          \<and> cls_returncode (classes s ! a) = Some k) (subclasses s)"
      using ok by (simp_all add: taxonomy_ok_def)
    have "CommandError \<in> set (cls_mro (classes s ! cls))"
      using mro cls by (simp add: list_all_length)
    then have mro': "list_all (\<lambda>c. CommandError \<in> set (cls_mro c)) (classes ?s')"
      using mro by simp
    have gen': "list_all cls_new_raises (tl (classes ?s'))"
      using gen ne by simp
    have base': "\<not> cls_new_raises (classes ?s' ! 0)"
      using base ne by (simp add: nth_append)
    have old: "list_all (\<lambda>(k, a). 0 < a \<and> a < length (classes ?s')
                          \<and> cls_returncode (classes ?s' ! a) = Some k) (subclasses s)"
      using memo by (auto simp: list_all_iff nth_append)
    have "list_all (\<lambda>(k, a). 0 < a \<and> a < length (classes ?s')
                          \<and> cls_returncode (classes ?s' ! a) = Some k) (subclasses ?s')"
      using old ne by (auto simp: dict_setdefault_def intro!: list_all_dict_set)
    then show ?thesis using mro' gen' base' ne by (simp add: s' taxonomy_ok_def)
  qed
qed

lemma taxonomy_ok_kind:
  assumes "taxonomy_ok s" and "map_of (subclasses s) n = Some c"
  shows "0 < c \<and> c < length (classes s) \<and> cls_returncode (classes s ! c) = Some n
         \<and> cls_new_raises (classes s ! c) \<and> CommandError \<in> set (cls_mro (classes s ! c))"
proof -
  have "(n, c) \<in> set (subclasses s)" using assms(2) by (rule map_of_SomeD)
  then have c: "0 < c \<and> c < length (classes s) \<and> cls_returncode (classes s ! c) = Some n"
    using assms(1) by (auto simp: taxonomy_ok_def list_all_iff)
  then have "classes s ! c = tl (classes s) ! (c - 1)"
    by (cases "classes s") (auto simp: nth_Cons')
  moreover have "c - 1 < length (tl (classes s))" using c by (cases "classes s") auto
  ultimately have "cls_new_raises (classes s ! c)"
    using assms(1) by (simp add: taxonomy_ok_def list_all_length)
  moreover have "CommandError \<in> set (cls_mro (classes s ! c))"
    using assms(1) c by (simp add: taxonomy_ok_def list_all_length)
  ultimately show ?thesis using c by simp
qed

lemma base_in_store: "taxonomy_ok s \<Longrightarrow> CommandError < length (classes s)"
  by (simp add: taxonomy_ok_def CommandError_def)

text \<open>
  C5: in every state of the module, calling \<^verbatim>\<open>CommandError\<close> itself with an
  integer code and a process raises nothing and returns an instance whose class is the
  one \<^verbatim>\<open>CommandError.code\<close> gives for that code, before and after the call, and
  whose \<^verbatim>\<open>returncode\<close> member is that code; the instance carries both arguments and
  is an instance of \<^verbatim>\<open>CommandError\<close>. Every instance of a class of the store is an
  instance of \<^verbatim>\<open>CommandError\<close>.
\<close>

theorem base_constructs_specific:
  assumes "taxonomy_ok s"
  shows "(\<exists>obj s'. CommandError_call h s CommandError (PyInt n) process = (Inr obj, s')
            \<and> code h s CommandError (PyInt n) = (Inr (inst_class obj), s')
            \<and> code h s' CommandError (PyInt n) = (Inr (inst_class obj), s')
            \<and> cls_returncode (classes s' ! inst_class obj) = Some n
            \<and> inst_returncode obj = PyInt n \<and> inst_process obj = process
            \<and> isinstance s' obj CommandError \<and> taxonomy_ok s')
       \<and> (\<forall>obj. inst_class obj < length (classes s) \<longrightarrow> isinstance s obj CommandError)"
proof -
  obtain sn where nn: "normalize_code h (PyInt n) = Inr (n, sn)"
    using normalize_int by blast
  obtain c s' where c: "code h s CommandError (PyInt n) = (Inr c, s')"
    and m: "map_of (subclasses s') n = Some c"
    using code_result [OF nn] by blast
  have "taxonomy_ok (snd (code h s CommandError (PyInt n)))"
    using assms base_in_store [OF assms] by (rule taxonomy_ok_code)
  then have ok': "taxonomy_ok s'" using c by simp
  have base: "\<not> cls_new_raises (classes s ! CommandError)"
    using assms by (simp add: taxonomy_ok_def CommandError_def)
  have call: "CommandError_call h s CommandError (PyInt n) process =
        (Inr \<lparr>inst_class = c, inst_returncode = PyInt n, inst_process = process\<rparr>, s')"
    using base c by (simp add: CommandError_call_def)
  have again: "code h s' CommandError (PyInt n) = (Inr c, s')"
    using nn m by (rule code_memoised)
  have kind: "cls_returncode (classes s' ! c) = Some n"
    and sub: "CommandError \<in> set (cls_mro (classes s' ! c))"
    using taxonomy_ok_kind [OF ok' m] by simp_all
  have first: "\<exists>obj s'. CommandError_call h s CommandError (PyInt n) process = (Inr obj, s')
            \<and> code h s CommandError (PyInt n) = (Inr (inst_class obj), s')
            \<and> code h s' CommandError (PyInt n) = (Inr (inst_class obj), s')
            \<and> cls_returncode (classes s' ! inst_class obj) = Some n
            \<and> inst_returncode obj = PyInt n \<and> inst_process obj = process
            \<and> isinstance s' obj CommandError \<and> taxonomy_ok s'"
    using call c again kind sub ok'
    by (intro exI [of _ "\<lparr>inst_class = c, inst_returncode = PyInt n, inst_process = process\<rparr>"]
        exI [of _ "s'"]) (simp add: isinstance_def issubclass_def)
  have second: "\<forall>obj. inst_class obj < length (classes s) \<longrightarrow> isinstance s obj CommandError"
    using assms by (simp add: taxonomy_ok_def list_all_length isinstance_def issubclass_def)
  show ?thesis using first second by blast
qed

text \<open>The theorem in the initial state, at code 10.\<close>

theorem base_constructs_specific_witness:
  "taxonomy_ok initial_taxonomy
   \<and> (\<exists>obj s'. CommandError_call example_host initial_taxonomy CommandError (PyInt 10) 7 = (Inr obj, s')
         \<and> code example_host s' CommandError (PyInt 10) = (Inr (inst_class obj), s')
         \<and> isinstance s' obj CommandError)"
  using base_constructs_specific [OF taxonomy_ok_initial, of example_host 10 7] taxonomy_ok_initial
  by blast

text \<open>
  C6, as the code has it: calling a class that \<^verbatim>\<open>CommandError.code\<close> returned
  raises the type error of its own \<^verbatim>\<open>__new__\<close>, whatever the arguments, and changes
  nothing; calling \<^verbatim>\<open>CommandError\<close> itself with an integer code raises nothing and
  returns an instance of another class.
\<close>

theorem specific_kind_not_instantiable:
  assumes "taxonomy_ok s" and "cls < length (classes s)" and "fst (code h s cls rc) = Inr kind"
  shows "CommandError_call h (snd (code h s cls rc)) kind returncode process =
           (Inl (TypeError ''Cannot instantiate CommandError subclasses''), snd (code h s cls rc))
       \<and> (\<exists>obj s'. CommandError_call h s CommandError (PyInt n) process = (Inr obj, s')
                    \<and> inst_class obj \<noteq> CommandError)"
proof -
  have ok: "taxonomy_ok (snd (code h s cls rc))" using assms(1,2) by (rule taxonomy_ok_code)
  obtain r where r: "normalize_code h rc = Inr r"
    using assms(3) by (cases "normalize_code h rc") (auto simp: code_def)
  obtain k sn where ksn: "normalize_code h rc = Inr (k, sn)" using r by (cases r) simp
  obtain c s' where c: "code h s cls rc = (Inr c, s')" and m: "map_of (subclasses s') k = Some c"
    using code_result [OF ksn] by blast
  have s': "snd (code h s cls rc) = s'" and "c = kind" using c assms(3) by simp_all
  then have "cls_new_raises (classes s' ! kind)"
    using taxonomy_ok_kind [OF _ m] ok by simp
  then have specific: "CommandError_call h (snd (code h s cls rc)) kind returncode process =
           (Inl (TypeError ''Cannot instantiate CommandError subclasses''), snd (code h s cls rc))"
    by (simp add: CommandError_call_def s')
  obtain sn' where nn: "normalize_code h (PyInt n) = Inr (n, sn')"
    using normalize_int by blast
  obtain b t where b: "code h s CommandError (PyInt n) = (Inr b, t)"
    and mb: "map_of (subclasses t) n = Some b"
    using code_result [OF nn] by blast
  have "taxonomy_ok (snd (code h s CommandError (PyInt n)))"
    using assms(1) base_in_store [OF assms(1)] by (rule taxonomy_ok_code)
  then have "taxonomy_ok t" using b by simp
  then have "b \<noteq> CommandError" using taxonomy_ok_kind [OF _ mb] by (simp add: CommandError_def)
  moreover have "\<not> cls_new_raises (classes s ! CommandError)"
    using assms(1) by (simp add: taxonomy_ok_def CommandError_def)
  ultimately have "\<exists>obj s'. CommandError_call h s CommandError (PyInt n) process = (Inr obj, s')
                    \<and> inst_class obj \<noteq> CommandError"
    using b by (simp add: CommandError_call_def)
  then show ?thesis using specific by blast
qed

text \<open>The theorem at the class for code 10, created in the initial state.\<close>

theorem specific_kind_not_instantiable_witness:
  "taxonomy_ok initial_taxonomy \<and> CommandError < length (classes initial_taxonomy)
   \<and> fst (code example_host initial_taxonomy CommandError (PyInt 10)) = Inr 1
   \<and> CommandError_call example_host
        (snd (code example_host initial_taxonomy CommandError (PyInt 10))) 1 (PyInt 10) 7 =
           (Inl (TypeError ''Cannot instantiate CommandError subclasses''),
            snd (code example_host initial_taxonomy CommandError (PyInt 10)))"
proof -
  have a: "CommandError < length (classes initial_taxonomy)"
    by (simp add: initial_taxonomy_def CommandError_def)
  have b: "fst (code example_host initial_taxonomy CommandError (PyInt 10)) = Inr 1"
    by (simp add: code_def normalize_code_def int_value_def SIGNAL_NAMES_def SIGNAL_CODES_def
        example_host_def initial_taxonomy_def dict_contains_def dict_setdefault_def
        CommandError_def Let_def)
  show ?thesis
    using specific_kind_not_instantiable [OF taxonomy_ok_initial a b, of "PyInt 10" 7 0]
      taxonomy_ok_initial a b by blast
qed

text \<open>
  C6 as stated fails: \<^verbatim>\<open>CommandError(10, process)\<close> in the initial state raises
  nothing and returns an instance of the class at address 1.
\<close>

theorem base_kind_instantiable:
  "fst (CommandError_call example_host initial_taxonomy CommandError (PyInt 10) 7) =
     Inr \<lparr>inst_class = 1, inst_returncode = PyInt 10, inst_process = 7\<rparr>"
  by (simp add: CommandError_call_def code_def normalize_code_def int_value_def
      SIGNAL_NAMES_def SIGNAL_CODES_def example_host_def initial_taxonomy_def
      dict_contains_def dict_setdefault_def CommandError_def Let_def)

section \<open>Properties of process construction\<close>

lemmas configure_steps =
  configure_def shell_args_def set_universal_newlines_def pipe_stdin_def input_stdin_def
  capture_out_def capture_err_def bind_err_def

lemmas concrete_inputs =
  default_args_def no_kwargs_def quiet_env_def broken_pipe_env_def
  broken_pipe_on_close_env_def initial_world_def
  streamless_process_def writable_process_def world_after_true_def world_after_cat_def
  example_host_def

lemma launch_true:
  "Process_init quiet_env example_host initial_world (CmdSeq [PyStr ''true'']) default_args
     = Some (Inr streamless_process, world_after_true)"
  by (simp add: Process_init_def configure_steps Popen_init_def write_input_def
      finish_init_def wait_and_check_def record_event_def concrete_inputs Let_def)

lemma launch_cat:
  "Process_init quiet_env example_host initial_world (CmdSeq [PyStr ''cat''])
     (default_args\<lparr>arg_kwargs := no_kwargs\<lparr>kw_stdin := Some PIPE\<rparr>\<rparr>)
     = Some (Inr writable_process, world_after_cat)"
  by (simp add: Process_init_def configure_steps Popen_init_def write_input_def
      finish_init_def wait_and_check_def record_event_def concrete_inputs Let_def)

text \<open>
  The conflicts the checks do reject: a \<^verbatim>\<open>stdin\<close> argument together with a
  predecessor or with literal input, literal input together with a predecessor that has
  an output stream, and a \<^verbatim>\<open>stdout\<close> or \<^verbatim>\<open>stderr\<close> argument together with the
  capture of that stream. Nothing is spawned then.
\<close>

lemma configure_conflicts:
  "(kw_stdin (arg_kwargs a) \<noteq> None \<and> (arg_tail a \<noteq> None \<or> arg_input a \<noteq> None))
   \<or> (\<exists>t. arg_tail a = Some t \<and> p_stdout t \<noteq> None \<and> arg_input a \<noteq> None)
   \<or> (arg_capture_stdout a \<and> kw_stdout (arg_kwargs a) \<noteq> None)
   \<or> (arg_capture_stderr a \<and> kw_stderr (arg_kwargs a) \<noteq> None) \<Longrightarrow>
   \<exists>msg. configure h args a = Inl (ValueError msg)"
  apply (cases "arg_tail a"; cases "arg_input a")
  apply (auto simp: configure_steps)
  done

lemma configure_error_spawns_nothing:
  "configure h args a = Inl e \<Longrightarrow> Process_init ev h w args a = Some (Inl e, w)"
  by (simp add: Process_init_def)

text \<open>
  C4 at \<^verbatim>\<open>Process(['cat'], tail=Process(['true']), input='x')\<close>: the predecessor
  has no output stream, so \<^verbatim>\<open>kwargs['stdin']\<close> is \<^verbatim>\<open>None\<close> when the literal
  input is checked; no configuration error is raised and the child is to be spawned
  with \<^verbatim>\<open>stdin=PIPE\<close>.
\<close>

theorem tail_without_stdout_and_input_accepted:
  "p_stdout streamless_process = None
   \<and> configure example_host (CmdSeq [PyStr ''cat''])
       (default_args\<lparr>arg_tail := Some streamless_process, arg_input := Some (PyStr ''x'')\<rparr>)
     = Inr (CmdSeq [PyStr ''cat''],
            no_kwargs\<lparr>kw_stdin := Some PIPE, kw_universal_newlines := Some (PyBool True)\<rparr>)"
  by (simp add: configure_steps concrete_inputs)

lemma configure_input_stdin:
  "configure h args0 a = Inr (args, kwargs) \<Longrightarrow> arg_input a = Some data \<Longrightarrow>
   kw_stdin kwargs = Some PIPE"
  by (auto simp: configure_steps split: sum.splits if_splits option.splits)

lemma Popen_init_launched:
  "Popen_init ev w args kwargs = (Inr (pid, si, so, se), w1) \<Longrightarrow>
   pid = next_id w
   \<and> si = (if kw_stdin kwargs = Some PIPE then Some (pid + 1) else None)
   \<and> so = (if kw_stdout kwargs = Some PIPE then Some (pid + 2) else None)
   \<and> se = (if kw_stderr kwargs = Some PIPE then Some (pid + 3) else None)
   \<and> w1 = w\<lparr>next_id := pid + 4, trace := trace w @ [Spawned pid args kwargs]\<rparr>"
  by (auto simp: Popen_init_def Let_def record_event_def split: option.splits)

text \<open>
  What the constructor does with literal input once the checks are passed and the child
  is launched, where the predecessor, if there is one, has an input stream: the input is
  written to the handle's \<^verbatim>\<open>stdin\<close> (through the binary buffer when it is bytes)
  and the stream is closed, whether or not the write raised. Only the write stands
  inside the \<^verbatim>\<open>try\<close>: an \<^verbatim>\<open>IOError\<close> of the write with \<^verbatim>\<open>errno\<close>
  \<^verbatim>\<open>EINVAL\<close> or \<^verbatim>\<open>EPIPE\<close> is dropped, while whatever the close raises in the
  \<^verbatim>\<open>finally\<close> block is raised by the constructor, \<^verbatim>\<open>EPIPE\<close> included.
\<close>

lemma write_stage_outcome:
  assumes cfg: "configure h args0 a = Inr (args, kwargs)"
    and launch: "Popen_init ev w args kwargs = (Inr (pid, si, so, se), w1)"
    and input: "arg_input a = Some data"
    and tail: "\<forall>t. arg_tail a = Some t \<longrightarrow> p_stdin t \<noteq> None"
  shows "\<exists>s. (case arg_tail a of None \<Rightarrow> si | Some t \<Rightarrow> p_stdin t) = Some s
     \<and> Process_init ev h w args0 a =
        (let via_buffer = (case data of PyBytes b \<Rightarrow> True | _ \<Rightarrow> False);
             launched = trace w @ [Spawned pid args kwargs];
             w2 = w1\<lparr>trace := launched @ [Written s via_buffer data, Closed s]\<rparr>;
             self = Process args (arg_check a) (arg_tail a) (Some s) so se pid
         in case close_error ev (launched @ [Written s via_buffer data]) s of
              Some e \<Rightarrow> Some (Inl e, w2)
            | None \<Rightarrow>
                (case write_error ev launched s via_buffer data of
                   None \<Rightarrow> finish_init ev self a w2
                 | Some e \<Rightarrow>
                     if e = IOError (Some (EINVAL h)) \<or> e = IOError (Some (EPIPE h))
                     then finish_init ev self a w2
                     else Some (Inl e, w2)))"
proof -
  have pipe: "kw_stdin kwargs = Some PIPE" using cfg input by (rule configure_input_stdin)
  have si: "si = Some (pid + 1)"
    and w1: "w1 = w\<lparr>next_id := pid + 4, trace := trace w @ [Spawned pid args kwargs]\<rparr>"
    using Popen_init_launched [OF launch] pipe by simp_all
  obtain s where s: "(case arg_tail a of None \<Rightarrow> si | Some t \<Rightarrow> p_stdin t) = Some s"
    using tail si by (cases "arg_tail a") auto
  have sw: "swallowed h e \<longleftrightarrow> (e = IOError (Some (EINVAL h)) \<or> e = IOError (Some (EPIPE h)))" for e
    by (cases e) (auto simp: swallowed_def)
  have "Process_init ev h w args0 a =
        (let via_buffer = (case data of PyBytes b \<Rightarrow> True | _ \<Rightarrow> False);
             launched = trace w @ [Spawned pid args kwargs];
             w2 = w1\<lparr>trace := launched @ [Written s via_buffer data, Closed s]\<rparr>;
             self = Process args (arg_check a) (arg_tail a) (Some s) so se pid
         in case close_error ev (launched @ [Written s via_buffer data]) s of
              Some e \<Rightarrow> Some (Inl e, w2)
            | None \<Rightarrow>
                (case write_error ev launched s via_buffer data of
                   None \<Rightarrow> finish_init ev self a w2
                 | Some e \<Rightarrow>
                     if e = IOError (Some (EINVAL h)) \<or> e = IOError (Some (EPIPE h))
                     then finish_init ev self a w2
                     else Some (Inl e, w2)))"
    using cfg launch input s
    by (simp add: Process_init_def write_input_def Let_def record_event_def w1 sw
        split: option.splits)
  then show ?thesis using s by blast
qed


text \<open>
  C8 on three constructions. At \<^verbatim>\<open>Process(['true'], input='x')\<close> with a write
  that fails with \<^verbatim>\<open>EPIPE\<close> the error is swallowed, the stream is closed and the
  handle is returned. At the same call with a write that is buffered and a close that
  fails with \<^verbatim>\<open>EPIPE\<close> the constructor raises that error: the broken pipe is not
  swallowed. At \<^verbatim>\<open>Process(['cat'], tail=Process(['true']), input='x')\<close> the child
  is spawned, the handle's \<^verbatim>\<open>stdin\<close> is the predecessor's, which is
  \<^verbatim>\<open>None\<close>, and the constructor raises a type error with nothing written and
  nothing closed.
\<close>

theorem broken_pipe_on_close_propagates:
  "EPIPE example_host = 32
   \<and> Process_init broken_pipe_env example_host initial_world (CmdSeq [PyStr ''true''])
       (default_args\<lparr>arg_input := Some (PyStr ''x'')\<rparr>)
     = Some (Inr (Process (CmdSeq [PyStr ''true'']) True None (Some 1) None None 0),
             \<lparr>next_id = 4, now = 0,
              trace = [Spawned 0 (CmdSeq [PyStr ''true''])
                         (no_kwargs\<lparr>kw_stdin := Some PIPE,
                                    kw_universal_newlines := Some (PyBool True)\<rparr>),
                       Written 1 False (PyStr ''x''), Closed 1]\<rparr>)
   \<and> Process_init broken_pipe_on_close_env example_host initial_world (CmdSeq [PyStr ''true''])
       (default_args\<lparr>arg_input := Some (PyStr ''x'')\<rparr>)
     = Some (Inl (IOError (Some 32)),
             \<lparr>next_id = 4, now = 0,
              trace = [Spawned 0 (CmdSeq [PyStr ''true''])
                         (no_kwargs\<lparr>kw_stdin := Some PIPE,
                                    kw_universal_newlines := Some (PyBool True)\<rparr>),
                       Written 1 False (PyStr ''x''), Closed 1]\<rparr>)
   \<and> Process_init quiet_env example_host world_after_true (CmdSeq [PyStr ''cat''])
       (default_args\<lparr>arg_tail := Some streamless_process, arg_input := Some (PyStr ''x'')\<rparr>)
     = Some (Inl (TypeError (''Couldn'' @ [CHR 0x27] @ ''t find stdin'')),
             \<lparr>next_id = 8, now = 0,
              trace = [Spawned 0 (CmdSeq [PyStr ''true''])
                         (no_kwargs\<lparr>kw_universal_newlines := Some (PyBool True)\<rparr>),
                       Spawned 4 (CmdSeq [PyStr ''cat''])
                         (no_kwargs\<lparr>kw_stdin := Some PIPE,
                                    kw_universal_newlines := Some (PyBool True)\<rparr>)]\<rparr>)"
  by (simp add: Process_init_def configure_steps Popen_init_def write_input_def swallowed_def
      finish_init_def wait_and_check_def record_event_def concrete_inputs Let_def)

text \<open>
  C10 at \<^verbatim>\<open>Process(['wc'], tail=Process(['cat'], stdin=PIPE), input='x')\<close>: the
  predecessor has an input stream and no output stream. The child is spawned with
  \<^verbatim>\<open>stdin=PIPE\<close>, a pipe of its own, not with the predecessor's output; the handle's
  \<^verbatim>\<open>stdin\<close> is the predecessor's stream 1, to which the input is written.
\<close>

theorem tail_and_input_spawn_with_fresh_pipe:
  "p_stdout writable_process = None \<and> p_stdin writable_process = Some 1
   \<and> Process_init quiet_env example_host world_after_cat (CmdSeq [PyStr ''wc''])
       (default_args\<lparr>arg_tail := Some writable_process, arg_input := Some (PyStr ''x'')\<rparr>)
     = Some (Inr (Process (CmdSeq [PyStr ''wc'']) True (Some writable_process) (Some 1)
                    None None 4),
             \<lparr>next_id = 8, now = 0,
              trace = [Spawned 0 (CmdSeq [PyStr ''cat''])
                         (no_kwargs\<lparr>kw_stdin := Some PIPE,
                                    kw_universal_newlines := Some (PyBool True)\<rparr>),
                       Spawned 4 (CmdSeq [PyStr ''wc''])
                         (no_kwargs\<lparr>kw_stdin := Some PIPE,
                                    kw_universal_newlines := Some (PyBool True)\<rparr>),
                       Written 1 False (PyStr ''x''), Closed 1]\<rparr>)"
  by (simp add: Process_init_def configure_steps Popen_init_def write_input_def
      finish_init_def wait_and_check_def record_event_def concrete_inputs Let_def)

text \<open>
  What holds of a handle with a predecessor otherwise: when the predecessor has an output
  stream or no literal input is given, the child's \<^verbatim>\<open>stdin\<close> argument is the
  predecessor's output; the handle's \<^verbatim>\<open>stdin\<close> is always the predecessor's, and
  so, link by link, that of the head of the pipeline.
\<close>

lemma configure_tail_stdin:
  assumes "configure h args0 a = Inr (args, kwargs)" and "arg_tail a = Some t"
    and "p_stdout t \<noteq> None \<or> arg_input a = None"
  shows "kw_stdin kwargs = map_option FileObj (p_stdout t) \<and> arg_input a = None"
  using assms by (auto simp: configure_steps split: sum.splits if_splits option.splits)

lemma finish_init_self: "finish_init ev self a w = Some (Inr p, w') \<Longrightarrow> p = self"
  by (auto simp: finish_init_def split: option.splits sum.splits)

lemma Process_init_tail_stdin:
  assumes "Process_init ev h w args0 a = Some (Inr self, w')" and "arg_tail a = Some t"
  shows "p_tail self = Some t \<and> p_stdin self = p_stdin t"
  using assms
  by (auto simp: Process_init_def Let_def split: sum.splits prod.splits dest!: finish_init_self)

lemma stdin_of_head: "stdin_rebound p \<Longrightarrow> p_stdin p = p_stdin (pipeline_head p)"
proof (induction p)
  case (Process args check tail si so se pid)
  show ?case
  proof (cases tail)
    case None
    then show ?thesis by simp
  next
    case (Some t)
    then have "stdin_rebound t" and "si = p_stdin t" using Process.prems by simp_all
    then show ?thesis using Process.IH [of t] Some by simp
  qed
qed

lemma Process_init_stdin_of_head:
  assumes "Process_init ev h w args0 a = Some (Inr self, w')"
    and "\<forall>t. arg_tail a = Some t \<longrightarrow> stdin_rebound t"
  shows "stdin_rebound self \<and> p_stdin self = p_stdin (pipeline_head self)"
proof -
  have "stdin_rebound self"
    using assms
    by (auto simp: Process_init_def Let_def split: sum.splits prod.splits option.splits
        dest!: finish_init_self)
  then show ?thesis using stdin_of_head by blast
qed

section \<open>Properties of waiting\<close>

lemma Popen_wait_timely:
  assumes "timely_env ev"
  shows "\<exists>res t1. Popen_wait ev p (Some r) w
            = Some (res, w\<lparr>now := t1, trace := trace w @ [Waited (p_pid p) (Some r)]\<rparr>)
          \<and> now w \<le> t1
          \<and> (case res of Inr rc \<Rightarrow> t1 \<le> now w + max r 0 | Inl e \<Rightarrow> e = TimeoutExpired)"
proof -
  have "case popen_wait ev (trace w) (p_pid p) (Some r) (now w) of
          None \<Rightarrow> False
        | Some (Inl e, t1) \<Rightarrow> e = TimeoutExpired \<and> now w \<le> t1
        | Some (Inr rc, t1) \<Rightarrow> now w \<le> t1 \<and> t1 \<le> now w + max r 0"
    using assms unfolding timely_env_def by blast
  then show ?thesis
    by (auto simp: Popen_wait_def record_event_def split: option.splits sum.splits prod.splits)
qed

lemma Process_wait_timely:
  assumes "timely_env ev"
  shows "\<exists>res w'. Process_wait ev p (Some T) w = Some (res, w')
          \<and> now w \<le> now w'
          \<and> (case res of Inr rc \<Rightarrow> now w' \<le> now w + max T 0 | Inl e \<Rightarrow> e = TimeoutExpired)
          \<and> (\<exists>waits. trace w' = trace w @ waits
                \<and> (\<forall>e \<in> set waits. \<exists>pid r. e = Waited pid (Some r)))"
proof (induction p arbitrary: w)
  case (Process args check tail si so se pid)
  let ?p = "Process args check tail si so se pid"
  show ?case
  proof (cases tail)
    case None
    obtain res t1 where
      r: "Popen_wait ev ?p (Some T) w
            = Some (res, w\<lparr>now := t1, trace := trace w @ [Waited (p_pid ?p) (Some T)]\<rparr>)"
      and t: "now w \<le> t1"
      and b: "(case res of Inr rc \<Rightarrow> t1 \<le> now w + max T 0 | Inl e \<Rightarrow> e = TimeoutExpired)"
      using Popen_wait_timely [OF assms, of ?p T w] by blast
    show ?thesis using None r t b by (cases res) (auto simp: Let_def)
  next
    case (Some t)
    from Process.IH [of t w] Some
    obtain res1 w1 where
      r1: "Process_wait ev t (Some T) w = Some (res1, w1)"
      and t1: "now w \<le> now w1"
      and b1: "(case res1 of Inr rc \<Rightarrow> now w1 \<le> now w + max T 0 | Inl e \<Rightarrow> e = TimeoutExpired)"
      and tr1: "\<exists>waits. trace w1 = trace w @ waits
                \<and> (\<forall>e \<in> set waits. \<exists>pid r. e = Waited pid (Some r))"
      by auto
    show ?thesis
    proof (cases res1)
      case (Inl e)
      then show ?thesis using Some r1 t1 b1 tr1 by (simp add: Let_def)
    next
      case (Inr rc)
      let ?rest = "now w + T - now w1"
      obtain res t2 where
        r: "Popen_wait ev ?p (Some ?rest) w1
              = Some (res, w1\<lparr>now := t2, trace := trace w1 @ [Waited (p_pid ?p) (Some ?rest)]\<rparr>)"
        and t: "now w1 \<le> t2"
        and b: "(case res of Inr rc \<Rightarrow> t2 \<le> now w1 + max ?rest 0 | Inl e \<Rightarrow> e = TimeoutExpired)"
        using Popen_wait_timely [OF assms, of ?p ?rest w1] by blast
      have eq: "Process_wait ev ?p (Some T) w
              = Some (res, w1\<lparr>now := t2, trace := trace w1 @ [Waited (p_pid ?p) (Some ?rest)]\<rparr>)"
        using Some r1 Inr r by (simp add: Let_def)
      have bound: "(case res of Inr rc \<Rightarrow> t2 \<le> now w + max T 0 | Inl e \<Rightarrow> e = TimeoutExpired)"
        using b b1 Inr by (cases res) (auto simp: max_def split: if_splits)
      obtain waits where w: "trace w1 = trace w @ waits"
        "\<forall>e \<in> set waits. \<exists>pid r. e = Waited pid (Some r)"
        using tr1 by blast
      have "trace (w1\<lparr>now := t2, trace := trace w1 @ [Waited (p_pid ?p) (Some ?rest)]\<rparr>)
              = trace w @ (waits @ [Waited (p_pid ?p) (Some ?rest)])
            \<and> (\<forall>e \<in> set (waits @ [Waited (p_pid ?p) (Some ?rest)]). \<exists>pid r. e = Waited pid (Some r))"
        using w by auto
      then have "\<exists>ws. trace (w1\<lparr>now := t2, trace := trace w1 @ [Waited (p_pid ?p) (Some ?rest)]\<rparr>)
              = trace w @ ws \<and> (\<forall>e \<in> set ws. \<exists>pid r. e = Waited pid (Some r))"
        by blast
      then show ?thesis using eq bound t t1 by (cases res) auto
    qed
  qed
qed


lemma timely_sleepy_env: "timely_env sleepy_env"
  by (auto simp: timely_env_def sleepy_env_def quiet_env_def Let_def max_def)

text \<open>
  C7, with time as the readings of the clock and \<^verbatim>\<open>Popen.wait\<close> as the operating
  system answers it. Waiting with a timeout on a handle that has a predecessor waits on
  the predecessor first, with the whole timeout; an error raised there ends the wait and
  the handle itself is not waited on; otherwise the handle is waited on with the timeout
  less the time the clock advanced meanwhile. Where \<^verbatim>\<open>Popen.wait\<close> keeps to the
  timeouts it is given, the wait returns, and it either succeeds no later than the
  timeout after it began or raises \<^verbatim>\<open>TimeoutExpired\<close>; the only calls it makes on
  the processes are waits with a timeout.
\<close>

theorem wait_shares_budget:
  assumes "timely_env ev" and "p_tail p = Some t"
  shows "Process_wait ev p (Some T) w =
           (case Process_wait ev t (Some T) w of
              None \<Rightarrow> None
            | Some (Inl e, w1) \<Rightarrow> Some (Inl e, w1)
            | Some (Inr rc, w1) \<Rightarrow> Popen_wait ev p (Some (T - (now w1 - now w))) w1)
       \<and> (\<exists>res w'. Process_wait ev p (Some T) w = Some (res, w')
             \<and> (case res of Inr rc \<Rightarrow> now w' \<le> now w + max T 0 | Inl e \<Rightarrow> e = TimeoutExpired)
             \<and> (\<exists>waits. trace w' = trace w @ waits
                   \<and> (\<forall>e \<in> set waits. \<exists>pid r. e = Waited pid (Some r))))"
proof -
  have rest: "now w + T - now w1 = T - (now w1 - now w)" for w1 :: world
    by simp
  have first: "Process_wait ev p (Some T) w =
           (case Process_wait ev t (Some T) w of
              None \<Rightarrow> None
            | Some (Inl e, w1) \<Rightarrow> Some (Inl e, w1)
            | Some (Inr rc, w1) \<Rightarrow> Popen_wait ev p (Some (T - (now w1 - now w))) w1)"
    using assms(2)
    by (cases p) (simp add: Let_def rest split: option.splits sum.splits prod.splits)
  show ?thesis using first Process_wait_timely [OF assms(1), of p T w] by blast
qed

text \<open>The theorem at a pipeline whose first process exits after 1/10: a budget of 1/20
  expires in the predecessor's wait, a budget of 1/5 leaves 1/10 for the handle.\<close>

theorem wait_shares_budget_witness:
  "timely_env sleepy_env
   \<and> p_tail sleep_true
       = Some (Process (CmdSeq [PyStr ''sleep'', PyStr ''0.1'']) False None None (Some 2) None 0)
   \<and> Process_wait sleepy_env sleep_true (Some (1 / 20)) initial_world
       = Some (Inl TimeoutExpired,
               \<lparr>next_id = 0, now = 1 / 20, trace = [Waited 0 (Some (1 / 20))]\<rparr>)
   \<and> Process_wait sleepy_env sleep_true (Some (1 / 5)) initial_world
       = Some (Inr 0,
               \<lparr>next_id = 0, now = 1 / 10,
                trace = [Waited 0 (Some (1 / 5)), Waited 4 (Some (1 / 10))]\<rparr>)"
proof -
  let ?t = "Process (CmdSeq [PyStr ''sleep'', PyStr ''0.1'']) False None None (Some 2) None 0"
  have t: "p_tail sleep_true = Some ?t" by (simp add: sleep_true_def)
  have pre: "Process_wait sleepy_env ?t (Some T) initial_world
               = (if 1 / 10 \<le> max T 0 then Some (Inr 0, \<lparr>next_id = 0, now = 1 / 10, trace = [Waited 0 (Some T)]\<rparr>)
                  else Some (Inl TimeoutExpired, \<lparr>next_id = 0, now = max T 0, trace = [Waited 0 (Some T)]\<rparr>))" for T
    by (auto simp: Popen_wait_def sleepy_env_def quiet_env_def initial_world_def
        record_event_def Let_def max_def)
  have own: "Popen_wait sleepy_env sleep_true (Some (1 / 5 - (1 / 10 - 0)))
               \<lparr>next_id = 0, now = 1 / 10, trace = [Waited 0 (Some (1 / 5))]\<rparr>
             = Some (Inr 0, \<lparr>next_id = 0, now = 1 / 10,
                              trace = [Waited 0 (Some (1 / 5)), Waited 4 (Some (1 / 10))]\<rparr>)"
    by (simp add: Popen_wait_def sleepy_env_def quiet_env_def sleep_true_def record_event_def
        Let_def)
  have "Process_wait sleepy_env sleep_true (Some (1 / 20)) initial_world
          = (case Process_wait sleepy_env ?t (Some (1 / 20)) initial_world of
               None \<Rightarrow> None
             | Some (Inl e, w1) \<Rightarrow> Some (Inl e, w1)
             | Some (Inr rc, w1) \<Rightarrow>
                 Popen_wait sleepy_env sleep_true
                   (Some (1 / 20 - (now w1 - now initial_world))) w1)"
    using wait_shares_budget [OF timely_sleepy_env t, of "1 / 20" initial_world]
    by (rule conjunct1)
  then have short: "Process_wait sleepy_env sleep_true (Some (1 / 20)) initial_world
       = Some (Inl TimeoutExpired,
               \<lparr>next_id = 0, now = 1 / 20, trace = [Waited 0 (Some (1 / 20))]\<rparr>)"
    unfolding pre by simp
  have "Process_wait sleepy_env sleep_true (Some (1 / 5)) initial_world
          = (case Process_wait sleepy_env ?t (Some (1 / 5)) initial_world of
               None \<Rightarrow> None
             | Some (Inl e, w1) \<Rightarrow> Some (Inl e, w1)
             | Some (Inr rc, w1) \<Rightarrow>
                 Popen_wait sleepy_env sleep_true
                   (Some (1 / 5 - (now w1 - now initial_world))) w1)"
    using wait_shares_budget [OF timely_sleepy_env t, of "1 / 5" initial_world]
    by (rule conjunct1)
  then have long: "Process_wait sleepy_env sleep_true (Some (1 / 5)) initial_world
       = Some (Inr 0,
               \<lparr>next_id = 0, now = 1 / 10,
                trace = [Waited 0 (Some (1 / 5)), Waited 4 (Some (1 / 10))]\<rparr>)"
    unfolding pre using own by (simp add: initial_world_def)
  show ?thesis using timely_sleepy_env t short long by simp
qed

end
